theory Spec2Isabelle
  imports Main "HOL-Library.Word" "HOL-Library.Monad_Syntax"
begin

unbundle bit_operations_syntax

section \<open>Data model (RohitVM.hpp)\<close>

type_synonym u8 = "8 word"
type_synonym u16 = "16 word"

text \<open>
  \<^verbatim>\<open>class Registers\<close>: seven \<^verbatim>\<open>uint16_t\<close> fields.  \<^verbatim>\<open>class CPU\<close> wraps them in
  its member \<^verbatim>\<open>r\<close>.
\<close>

record Registers =
  ax :: u16
  bx :: u16
  cx :: u16
  dx :: u16
  sp :: u16
  ip :: u16
  flags :: u16

record CPU =
  r :: Registers

text \<open>\<^verbatim>\<open>enum Flag\<close>: the four masks of the flag word.\<close>

definition Equal :: u16 where "Equal = 0x08"
definition Greater :: u16 where "Greater = 0x04"
definition Higher :: u16 where "Higher = 0x02"
definition Lower :: u16 where "Lower = 0x01"

lemmas Flag_defs = Equal_def Greater_def Higher_def Lower_def

text \<open>
  \<^verbatim>\<open>class Memory\<close>: a \<^verbatim>\<open>std::vector<uint8_t>\<close> that the constructor creates with
  \<^verbatim>\<open>SIZE\<close> zero bytes and that nothing resizes afterwards.
\<close>

definition SIZE :: nat where "SIZE = 65536"

record Memory =
  data :: "u8 list"

text \<open>
  \<^verbatim>\<open>enum class Opcode : uint8_t\<close>.  The fetch casts an arbitrary memory byte to
  \<^verbatim>\<open>Opcode\<close>, so a value of the type is any byte; the enumerators are names
  for 21 of them.
\<close>

type_synonym Opcode = u8

definition NOP :: Opcode where "NOP = 0x01"
definition HLT :: Opcode where "HLT = 0x02"
definition MOV :: Opcode where "MOV = 0x08"
definition MOV_BX :: Opcode where "MOV_BX = 0x09"
definition MOV_CX :: Opcode where "MOV_CX = 0x0A"
definition MOV_DX :: Opcode where "MOV_DX = 0x0B"
definition MOV_SP :: Opcode where "MOV_SP = 0x0C"
definition STE :: Opcode where "STE = 0x10"
definition CLE :: Opcode where "CLE = 0x11"
definition STG :: Opcode where "STG = 0x12"
definition CLG :: Opcode where "CLG = 0x13"
definition STH :: Opcode where "STH = 0x14"
definition CLH :: Opcode where "CLH = 0x15"
definition STL :: Opcode where "STL = 0x16"
definition CLL :: Opcode where "CLL = 0x17"
definition PUSH :: Opcode where "PUSH = 0x1A"
definition POP :: Opcode where "POP = 0x1B"
definition ADD :: Opcode where "ADD = 0x20"
definition SUB :: Opcode where "SUB = 0x21"
definition MUL :: Opcode where "MUL = 0x22"
definition DIV :: Opcode where "DIV = 0x23"

lemmas Opcode_defs =
  NOP_def HLT_def MOV_def MOV_BX_def MOV_CX_def MOV_DX_def MOV_SP_def
  STE_def CLE_def STG_def CLG_def STH_def CLH_def STL_def CLL_def
  PUSH_def POP_def ADD_def SUB_def MUL_def DIV_def

text \<open>\<^verbatim>\<open>struct Instruction\<close>; both operands default to 0.\<close>

record Instruction =
  op :: Opcode
  a1 :: u16
  a2 :: u16

text \<open>\<^verbatim>\<open>class VM\<close>.\<close>

record VM =
  cpu :: CPU
  memory :: Memory
  breakLine :: u16

text \<open>The access path \<^verbatim>\<open>cpu.r\<close>, read and written.\<close>

definition regs :: "VM \<Rightarrow> Registers" where
  "regs vm = r (cpu vm)"

definition set_regs :: "Registers \<Rightarrow> VM \<Rightarrow> VM" where
  "set_regs rs vm = vm\<lparr>cpu := (cpu vm)\<lparr>r := rs\<rparr>\<rparr>"

text \<open>
  The machine that \<^verbatim>\<open>VM() = default\<close> builds from the default member
  initialisers.
\<close>

definition VM_init :: VM where
  "VM_init =
     \<lparr>cpu = \<lparr>r = \<lparr>ax = 0, bx = 0, cx = 0, dx = 0, sp = 0xFFFF, ip = 0x0000, flags = 0x0000\<rparr>\<rparr>,
      memory = \<lparr>data = replicate SIZE 0\<rparr>,
      breakLine = 0\<rparr>"

text \<open>
  The class invariant of \<^verbatim>\<open>Memory\<close>: the vector holds \<^verbatim>\<open>SIZE\<close> bytes.
\<close>

definition mem_ok :: "VM \<Rightarrow> bool" where
  "mem_ok vm = (length (data (memory vm)) = SIZE)"

section \<open>Failures\<close>

text \<open>
  Every failure ends in \<^verbatim>\<open>VM::handleError\<close>, which prints its message and, its
  parameter \<^verbatim>\<open>fatal\<close> being \<^verbatim>\<open>true\<close> at every call, leaves the process through
  \<^verbatim>\<open>std::exit(EXIT_FAILURE)\<close>.  One constructor stands for each message; \<open>OutOfRange\<close>
  is the \<^verbatim>\<open>std::out_of_range\<close> of \<^verbatim>\<open>vector::at\<close>, which \<^verbatim>\<open>VM::execute\<close> catches
  and hands to \<^verbatim>\<open>handleError\<close>.  A failed operation returns \<open>Inl (e, vm)\<close>: the
  failure and the machine as it stood when the process left.
\<close>

datatype error =
    DivisionByZero
  | InvalidRegisterForPUSH
  | InvalidRegisterForPOP
  | IllegalInstruction
  | StackOverflow
  | StackUnderflow
  | OutOfRange

type_synonym 'a result = "(error \<times> VM) + 'a"

section \<open>Memory access\<close>

text \<open>
  \<^verbatim>\<open>Memory::operator[](uint16_t addr)\<close> is \<^verbatim>\<open>data.at(addr)\<close>: checked against the
  length of the vector, \<open>None\<close> where \<^verbatim>\<open>at\<close> throws.  The parameter is a
  \<^verbatim>\<open>uint16_t\<close>, so an index computed in \<^verbatim>\<open>int\<close> (\<^verbatim>\<open>ip + 1\<close>) is narrowed to 16 bits
  at the call; the callers below write that narrowing as addition on \<open>u16\<close>.
\<close>

definition mem_at :: "Memory \<Rightarrow> u16 \<Rightarrow> u8 option" where
  "mem_at m addr =
     (if unat addr < length (data m) then Some (data m ! unat addr) else None)"

definition mem_put :: "Memory \<Rightarrow> u16 \<Rightarrow> u8 \<Rightarrow> Memory option" where
  "mem_put m addr v =
     (if unat addr < length (data m) then Some (m\<lparr>data := (data m)[unat addr := v]\<rparr>) else None)"

text \<open>
  \<^verbatim>\<open>memory.raw()[i] = v\<close> with a \<^verbatim>\<open>uint16_t\<close> index, as the loader writes: no check.
  The index is below 65536, the length of the vector.
\<close>

definition raw_put :: "Memory \<Rightarrow> u16 \<Rightarrow> u8 \<Rightarrow> Memory" where
  "raw_put m i v = m\<lparr>data := (data m)[unat i := v]\<rparr>"

section \<open>Instruction sizes (VM::getInstructionSize)\<close>

definition sizeMap :: "(Opcode \<times> u8) list" where
  "sizeMap =
     [(NOP, 1), (HLT, 1),
      (MOV, 3), (MOV_BX, 3), (MOV_CX, 3),
      (MOV_DX, 3), (MOV_SP, 3),
      (STE, 1), (CLE, 1),
      (STG, 1), (CLG, 1),
      (STH, 1), (CLH, 1),
      (STL, 1), (CLL, 1),
      (PUSH, 3), (POP, 3),
      (ADD, 1), (SUB, 1), (MUL, 1), (DIV, 1)]"

text \<open>
  \<^verbatim>\<open>return sizeMap[op]\<close> on a \<^verbatim>\<open>std::map\<close>: a key that is absent is inserted with
  the value-initialised \<^verbatim>\<open>uint8_t\<close>, 0, which is returned.  The insertion changes
  no later result, so the lookup is a function.
\<close>

definition getInstructionSize :: "Opcode \<Rightarrow> u8" where
  "getInstructionSize t = (case map_of sizeMap t of Some n \<Rightarrow> n | None \<Rightarrow> 0)"

definition recognized :: "Opcode \<Rightarrow> bool" where
  "recognized t = (t \<in> set (map fst sizeMap))"

section \<open>Flags (CPU::setFlag and its callers)\<close>

definition setFlag :: "u16 \<Rightarrow> bool \<Rightarrow> VM \<Rightarrow> VM" where
  "setFlag msk val vm =
     (if val then set_regs ((regs vm)\<lparr>flags := flags (regs vm) OR msk\<rparr>) vm
      else set_regs ((regs vm)\<lparr>flags := flags (regs vm) AND NOT msk\<rparr>) vm)"

definition setEqual :: "bool \<Rightarrow> VM \<Rightarrow> VM" where "setEqual val = setFlag Equal val"
definition setGreater :: "bool \<Rightarrow> VM \<Rightarrow> VM" where "setGreater val = setFlag Greater val"
definition setHigher :: "bool \<Rightarrow> VM \<Rightarrow> VM" where "setHigher val = setFlag Higher val"
definition setLower :: "bool \<Rightarrow> VM \<Rightarrow> VM" where "setLower val = setFlag Lower val"

definition isEqual :: "VM \<Rightarrow> bool" where "isEqual vm = (flags (regs vm) AND Equal \<noteq> 0)"
definition isGreater :: "VM \<Rightarrow> bool" where "isGreater vm = (flags (regs vm) AND Greater \<noteq> 0)"
definition isHigher :: "VM \<Rightarrow> bool" where "isHigher vm = (flags (regs vm) AND Higher \<noteq> 0)"
definition isLower :: "VM \<Rightarrow> bool" where "isLower vm = (flags (regs vm) AND Lower \<noteq> 0)"

section \<open>Fetch (VM::fetchNextInstruction)\<close>

text \<open>
  The bytes are read in the order of the source; the instruction pointer moves last, so
  a read that throws leaves the machine as it was.  \<^verbatim>\<open>memory[ip + 1] | (memory[ip + 2] << 8)\<close>
  is computed in \<^verbatim>\<open>int\<close> and is below 65536.
\<close>

definition fetchNextInstruction :: "VM \<Rightarrow> (Instruction \<times> VM) result" where
  "fetchNextInstruction vm =
     (let ip0 = ip (regs vm); m = memory vm in
      case do {
             t \<leftarrow> mem_at m ip0;
             let sz = getInstructionSize t;
             let instr = \<lparr>op = t, a1 = 0, a2 = 0\<rparr>;
             instr \<leftarrow> (if sz \<ge> 2
                        then do {
                          lo \<leftarrow> mem_at m (ip0 + 1);
                          hi \<leftarrow> mem_at m (ip0 + 2);
                          Some (instr\<lparr>a1 := ucast lo OR push_bit 8 (ucast hi)\<rparr>) }
                        else Some instr);
             instr \<leftarrow> (if sz = 5
                        then do {
                          lo \<leftarrow> mem_at m (ip0 + 3);
                          hi \<leftarrow> mem_at m (ip0 + 4);
                          Some (instr\<lparr>a2 := ucast lo OR push_bit 8 (ucast hi)\<rparr>) }
                        else Some instr);
             Some (instr, sz) }
      of None \<Rightarrow> Inl (OutOfRange, vm)
       | Some (instr, sz) \<Rightarrow>
           Inr (instr, set_regs ((regs vm)\<lparr>ip := ip0 + ucast sz\<rparr>) vm))"

section \<open>Stack (VM::push, VM::pop)\<close>

definition push :: "u16 \<Rightarrow> VM \<Rightarrow> VM result" where
  "push val vm =
     (if sp (regs vm) < 2 then Inl (StackOverflow, vm)
      else
        let vm1 = set_regs ((regs vm)\<lparr>sp := sp (regs vm) - 2\<rparr>) vm in
        case mem_put (memory vm1) (sp (regs vm1)) (ucast (val AND 0xff)) of
          None \<Rightarrow> Inl (OutOfRange, vm1)
        | Some m1 \<Rightarrow>
            let vm2 = vm1\<lparr>memory := m1\<rparr> in
            case mem_put (memory vm2) (sp (regs vm2) + 1) (ucast (drop_bit 8 val AND 0xff)) of
              None \<Rightarrow> Inl (OutOfRange, vm2)
            | Some m2 \<Rightarrow> Inr (vm2\<lparr>memory := m2\<rparr>))"

definition pop :: "VM \<Rightarrow> (u16 \<times> VM) result" where
  "pop vm =
     (if unat (sp (regs vm)) > SIZE - 2 then Inl (StackUnderflow, vm)
      else
        case do {
               lo \<leftarrow> mem_at (memory vm) (sp (regs vm));
               hi \<leftarrow> mem_at (memory vm) (sp (regs vm) + 1);
               Some (ucast lo OR push_bit 8 (ucast hi)) }
        of None \<Rightarrow> Inl (OutOfRange, vm)
         | Some val \<Rightarrow> Inr (val, set_regs ((regs vm)\<lparr>sp := sp (regs vm) + 2\<rparr>) vm))"

section \<open>Dispatch (VM::executeInstruction)\<close>

text \<open>
  The \<^verbatim>\<open>switch\<close>, one branch per \<^verbatim>\<open>case\<close> in the order of the source.  \<^verbatim>\<open>HLT\<close> only
  prints (the registers and 32 bytes of memory read through the raw pointer), which
  changes nothing.  Arithmetic on \<^verbatim>\<open>uint16_t\<close> is done in \<^verbatim>\<open>int\<close> and narrowed to
  16 bits on assignment: the low 16 bits of the sum, difference or product.  (A product
  above \<^verbatim>\<open>INT_MAX\<close> overflows the \<^verbatim>\<open>int\<close> multiplication, which the language standard
  leaves undefined; the model takes the two's-complement result, the low 16 bits of the
  product, as compilers for 32-bit \<^verbatim>\<open>int\<close> emit it.)  The unsigned division of two
  \<^verbatim>\<open>uint16_t\<close> truncates.
\<close>

definition executeInstruction :: "Instruction \<Rightarrow> VM \<Rightarrow> VM result" where
  "executeInstruction instr vm =
     (let rs = regs vm in
      if op instr = NOP then Inr vm
      else if op instr = HLT then Inr vm
      else if op instr = MOV then Inr (set_regs (rs\<lparr>ax := a1 instr\<rparr>) vm)
      else if op instr = MOV_BX then Inr (set_regs (rs\<lparr>bx := a1 instr\<rparr>) vm)
      else if op instr = MOV_CX then Inr (set_regs (rs\<lparr>cx := a1 instr\<rparr>) vm)
      else if op instr = MOV_DX then Inr (set_regs (rs\<lparr>dx := a1 instr\<rparr>) vm)
      else if op instr = MOV_SP then Inr (set_regs (rs\<lparr>sp := a1 instr\<rparr>) vm)
      else if op instr = ADD then Inr (set_regs (rs\<lparr>ax := ax rs + bx rs\<rparr>) vm)
      else if op instr = SUB then Inr (set_regs (rs\<lparr>ax := ax rs - bx rs\<rparr>) vm)
      else if op instr = MUL then Inr (set_regs (rs\<lparr>ax := ax rs * bx rs\<rparr>) vm)
      else if op instr = DIV then
        (if bx rs = 0 then Inl (DivisionByZero, vm)
         else Inr (set_regs (rs\<lparr>ax := ax rs div bx rs\<rparr>) vm))
      else if op instr = STE then Inr (setEqual True vm)
      else if op instr = CLE then Inr (setEqual False vm)
      else if op instr = STG then Inr (setGreater True vm)
      else if op instr = CLG then Inr (setGreater False vm)
      else if op instr = STH then Inr (setHigher True vm)
      else if op instr = CLH then Inr (setHigher False vm)
      else if op instr = STL then Inr (setLower True vm)
      else if op instr = CLL then Inr (setLower False vm)
      else if op instr = PUSH then
        (if a1 instr = 0x00 then push (ax rs) vm
         else if a1 instr = 0x01 then push (bx rs) vm
         else if a1 instr = 0x02 then push (cx rs) vm
         else if a1 instr = 0x03 then push (dx rs) vm
         else Inl (InvalidRegisterForPUSH, vm))
      else if op instr = POP then
        (if a1 instr = 0x00 then
           (case pop vm of Inl e \<Rightarrow> Inl e
            | Inr (v, vm1) \<Rightarrow> Inr (set_regs ((regs vm1)\<lparr>ax := v\<rparr>) vm1))
         else if a1 instr = 0x01 then
           (case pop vm of Inl e \<Rightarrow> Inl e
            | Inr (v, vm1) \<Rightarrow> Inr (set_regs ((regs vm1)\<lparr>bx := v\<rparr>) vm1))
         else if a1 instr = 0x02 then
           (case pop vm of Inl e \<Rightarrow> Inl e
            | Inr (v, vm1) \<Rightarrow> Inr (set_regs ((regs vm1)\<lparr>cx := v\<rparr>) vm1))
         else if a1 instr = 0x03 then
           (case pop vm of Inl e \<Rightarrow> Inl e
            | Inr (v, vm1) \<Rightarrow> Inr (set_regs ((regs vm1)\<lparr>dx := v\<rparr>) vm1))
         else Inl (InvalidRegisterForPOP, vm))
      else Inl (IllegalInstruction, vm))"

section \<open>The cycle (VM::execute)\<close>

text \<open>One turn of the \<^verbatim>\<open>while (true)\<close> loop up to its test: fetch, then dispatch.\<close>

definition step :: "VM \<Rightarrow> (Instruction \<times> VM) result" where
  "step vm =
     (case fetchNextInstruction vm of
        Inl e \<Rightarrow> Inl e
      | Inr (instr, vm1) \<Rightarrow>
          (case executeInstruction instr vm1 of
             Inl e \<Rightarrow> Inl e
           | Inr vm2 \<Rightarrow> Inr (instr, vm2)))"

text \<open>
  The loop leaves through \<^verbatim>\<open>break\<close> after a \<^verbatim>\<open>HLT\<close> (\<open>Inr\<close>: halted) or through
  \<^verbatim>\<open>handleError\<close> (\<open>Inl\<close>: the process exits); it may also run forever, which is
  \<open>None\<close>.
\<close>

partial_function (option) execute :: "VM \<Rightarrow> VM result option" where
  "execute vm =
     (case step vm of
        Inl e \<Rightarrow> Some (Inl e)
      | Inr (instr, vm2) \<Rightarrow>
          if op instr = HLT then Some (Inr vm2) else execute vm2)"

section \<open>Loader (VM::loadProgram)\<close>

text \<open>
  The body of the \<^verbatim>\<open>for\<close> loop.  Each \<^verbatim>\<open>mem[breakLine++] = b\<close> writes at the cursor
  and then increments it, a \<^verbatim>\<open>uint16_t\<close> that wraps from 65535 to 0.
\<close>

definition loadInstruction :: "Instruction \<Rightarrow> VM \<Rightarrow> VM" where
  "loadInstruction instr vm =
     (let vm = vm\<lparr>memory := raw_put (memory vm) (breakLine vm) (op instr),
                  breakLine := breakLine vm + 1\<rparr>;
          sz = getInstructionSize (op instr);
          vm = (if sz \<ge> 2
                then
                  let vm = vm\<lparr>memory := raw_put (memory vm) (breakLine vm) (ucast (a1 instr AND 0xff)),
                               breakLine := breakLine vm + 1\<rparr>
                  in vm\<lparr>memory := raw_put (memory vm) (breakLine vm)
                                    (ucast (drop_bit 8 (a1 instr) AND 0xff)),
                         breakLine := breakLine vm + 1\<rparr>
                else vm);
          vm = (if sz = 5
                then
                  let vm = vm\<lparr>memory := raw_put (memory vm) (breakLine vm) (ucast (a2 instr AND 0xff)),
                               breakLine := breakLine vm + 1\<rparr>
                  in vm\<lparr>memory := raw_put (memory vm) (breakLine vm)
                                    (ucast (drop_bit 8 (a2 instr) AND 0xff)),
                         breakLine := breakLine vm + 1\<rparr>
                else vm)
      in vm)"

fun loadProgram :: "Instruction list \<Rightarrow> VM \<Rightarrow> VM" where
  "loadProgram [] vm = vm"
| "loadProgram (instr # program) vm = loadProgram program (loadInstruction instr vm)"

text \<open>The number of bytes the loader writes for one instruction, and for a program.\<close>

definition encodedLength :: "Instruction \<Rightarrow> nat" where
  "encodedLength instr =
     (let sz = getInstructionSize (op instr) in
      1 + (if sz \<ge> 2 then 2 else 0) + (if sz = 5 then 2 else 0))"

definition programLength :: "Instruction list \<Rightarrow> nat" where
  "programLength program = sum_list (map encodedLength program)"

section \<open>The loader, byte by byte\<close>

text \<open>
  The bytes that one turn of the loader's loop writes, in the order it writes them: the
  tag, the two bytes of the first operand when the size is at least 2, the two bytes of
  the second when it is 5.
\<close>

definition encode :: "Instruction \<Rightarrow> u8 list" where
  "encode instr =
     (let sz = getInstructionSize (op instr) in
      [op instr]
      @ (if sz \<ge> 2
         then [ucast (a1 instr AND 0xff), ucast (drop_bit 8 (a1 instr) AND 0xff)] else [])
      @ (if sz = 5
         then [ucast (a2 instr AND 0xff), ucast (drop_bit 8 (a2 instr) AND 0xff)] else []))"

text \<open>The bytes of a whole program, instruction after instruction.\<close>

definition encodeProgram :: "Instruction list \<Rightarrow> u8 list" where
  "encodeProgram program = concat (map encode program)"

text \<open>The statement \<^verbatim>\<open>mem[breakLine++] = b\<close> alone, and a sequence of them.\<close>

definition store :: "u8 \<Rightarrow> VM \<Rightarrow> VM" where
  "store b vm = vm\<lparr>memory := raw_put (memory vm) (breakLine vm) b, breakLine := breakLine vm + 1\<rparr>"

fun write_bytes :: "u8 list \<Rightarrow> VM \<Rightarrow> VM" where
  "write_bytes [] vm = vm"
| "write_bytes (b # bs) vm = write_bytes bs (store b vm)"

text \<open>
  The loader once more, with each raw write checked against the length of the vector:
  \<open>None\<close> where the index would be outside, which the source leaves undefined.  It is
  compared with \<open>loadProgram\<close> below.
\<close>

definition store_checked :: "u8 \<Rightarrow> VM \<Rightarrow> VM option" where
  "store_checked b vm =
     (if unat (breakLine vm) < length (data (memory vm))
      then Some (vm\<lparr>memory := raw_put (memory vm) (breakLine vm) b, breakLine := breakLine vm + 1\<rparr>)
      else None)"

definition loadInstruction_checked :: "Instruction \<Rightarrow> VM \<Rightarrow> VM option" where
  "loadInstruction_checked instr vm =
     do {
       vm \<leftarrow> store_checked (op instr) vm;
       let sz = getInstructionSize (op instr);
       vm \<leftarrow> (if sz \<ge> 2
               then do {
                 vm \<leftarrow> store_checked (ucast (a1 instr AND 0xff)) vm;
                 store_checked (ucast (drop_bit 8 (a1 instr) AND 0xff)) vm }
               else Some vm);
       vm \<leftarrow> (if sz = 5
               then do {
                 vm \<leftarrow> store_checked (ucast (a2 instr AND 0xff)) vm;
                 store_checked (ucast (drop_bit 8 (a2 instr) AND 0xff)) vm }
               else Some vm);
       Some vm }"

fun loadProgram_checked :: "Instruction list \<Rightarrow> VM \<Rightarrow> VM option" where
  "loadProgram_checked [] vm = Some vm"
| "loadProgram_checked (instr # program) vm =
     (case loadInstruction_checked instr vm of
        None \<Rightarrow> None
      | Some vm1 \<Rightarrow> loadProgram_checked program vm1)"

section \<open>Predicates used in the statements\<close>

text \<open>What an instruction that only writes \<^verbatim>\<open>ax\<close> leaves alone.\<close>

definition same_except_ax :: "VM \<Rightarrow> VM \<Rightarrow> bool" where
  "same_except_ax vm vm' =
     (bx (regs vm') = bx (regs vm) \<and> cx (regs vm') = cx (regs vm) \<and>
      dx (regs vm') = dx (regs vm) \<and> sp (regs vm') = sp (regs vm) \<and>
      ip (regs vm') = ip (regs vm) \<and> flags (regs vm') = flags (regs vm) \<and>
      memory vm' = memory vm \<and> breakLine vm' = breakLine vm)"

definition same_except_flags :: "VM \<Rightarrow> VM \<Rightarrow> bool" where
  "same_except_flags vm vm' =
     (ax (regs vm') = ax (regs vm) \<and> bx (regs vm') = bx (regs vm) \<and>
      cx (regs vm') = cx (regs vm) \<and> dx (regs vm') = dx (regs vm) \<and>
      sp (regs vm') = sp (regs vm) \<and> ip (regs vm') = ip (regs vm) \<and>
      memory vm' = memory vm \<and> breakLine vm' = breakLine vm)"

definition flag_bits :: "VM \<Rightarrow> bool \<times> bool \<times> bool \<times> bool" where
  "flag_bits vm = (isEqual vm, isGreater vm, isHigher vm, isLower vm)"

text \<open>
  A machine with the tag of a 3-byte instruction at the last address, where its
  instruction pointer stands.
\<close>

definition VM_top :: VM where
  "VM_top =
     set_regs ((regs VM_init)\<lparr>ip := 0xFFFF\<rparr>)
       (VM_init\<lparr>memory := \<lparr>data = (replicate SIZE 0)[0xFFFF := MOV, 0 := 0x34, 1 := 0x12]\<rparr>\<rparr>)"

text \<open>The instruction \<^verbatim>\<open>{Opcode::NOP}\<close>, one byte when loaded.\<close>

definition nop :: Instruction where
  "nop = \<lparr>op = NOP, a1 = 0, a2 = 0\<rparr>"

section \<open>Basic facts\<close>

subsection \<open>Register access\<close>

lemma regs_simps [simp]:
  "regs (set_regs rs vm) = rs"
  "memory (set_regs rs vm) = memory vm"
  "breakLine (set_regs rs vm) = breakLine vm"
  "regs (vm\<lparr>memory := m\<rparr>) = regs vm"
  "regs (vm\<lparr>breakLine := b\<rparr>) = regs vm"
  by (simp_all add: regs_def set_regs_def)

lemma set_regs_same [simp]: "set_regs (regs vm) vm = vm"
  by (simp add: regs_def set_regs_def)

lemma mem_ok_simps [simp]:
  "mem_ok (set_regs rs vm) = mem_ok vm"
  "mem_ok (vm\<lparr>breakLine := b\<rparr>) = mem_ok vm"
  by (simp_all add: mem_ok_def)

lemma size_of_opcode:
  "getInstructionSize NOP = 1" "getInstructionSize HLT = 1"
  "getInstructionSize MOV = 3" "getInstructionSize MOV_BX = 3" "getInstructionSize MOV_CX = 3"
  "getInstructionSize MOV_DX = 3" "getInstructionSize MOV_SP = 3"
  "getInstructionSize STE = 1" "getInstructionSize CLE = 1"
  "getInstructionSize STG = 1" "getInstructionSize CLG = 1"
  "getInstructionSize STH = 1" "getInstructionSize CLH = 1"
  "getInstructionSize STL = 1" "getInstructionSize CLL = 1"
  "getInstructionSize PUSH = 3" "getInstructionSize POP = 3"
  "getInstructionSize ADD = 1" "getInstructionSize SUB = 1"
  "getInstructionSize MUL = 1" "getInstructionSize DIV = 1"
  by (simp_all add: getInstructionSize_def sizeMap_def Opcode_defs)

subsection \<open>Dispatch, one opcode at a time\<close>

lemma exec_ADD: "executeInstruction \<lparr>op = ADD, a1 = x, a2 = y\<rparr> vm =
    Inr (set_regs ((regs vm)\<lparr>ax := ax (regs vm) + bx (regs vm)\<rparr>) vm)"
  by (simp add: executeInstruction_def Opcode_defs Let_def)

lemma exec_SUB: "executeInstruction \<lparr>op = SUB, a1 = x, a2 = y\<rparr> vm =
    Inr (set_regs ((regs vm)\<lparr>ax := ax (regs vm) - bx (regs vm)\<rparr>) vm)"
  by (simp add: executeInstruction_def Opcode_defs Let_def)

lemma exec_MUL: "executeInstruction \<lparr>op = MUL, a1 = x, a2 = y\<rparr> vm =
    Inr (set_regs ((regs vm)\<lparr>ax := ax (regs vm) * bx (regs vm)\<rparr>) vm)"
  by (simp add: executeInstruction_def Opcode_defs Let_def)

lemma exec_DIV: "executeInstruction \<lparr>op = DIV, a1 = x, a2 = y\<rparr> vm =
    (if bx (regs vm) = 0 then Inl (DivisionByZero, vm)
     else Inr (set_regs ((regs vm)\<lparr>ax := ax (regs vm) div bx (regs vm)\<rparr>) vm))"
  by (simp add: executeInstruction_def Opcode_defs Let_def)

lemma exec_MOV:
  "executeInstruction \<lparr>op = MOV, a1 = v, a2 = y\<rparr> vm = Inr (set_regs ((regs vm)\<lparr>ax := v\<rparr>) vm)"
  "executeInstruction \<lparr>op = MOV_BX, a1 = v, a2 = y\<rparr> vm = Inr (set_regs ((regs vm)\<lparr>bx := v\<rparr>) vm)"
  "executeInstruction \<lparr>op = MOV_CX, a1 = v, a2 = y\<rparr> vm = Inr (set_regs ((regs vm)\<lparr>cx := v\<rparr>) vm)"
  "executeInstruction \<lparr>op = MOV_DX, a1 = v, a2 = y\<rparr> vm = Inr (set_regs ((regs vm)\<lparr>dx := v\<rparr>) vm)"
  "executeInstruction \<lparr>op = MOV_SP, a1 = v, a2 = y\<rparr> vm = Inr (set_regs ((regs vm)\<lparr>sp := v\<rparr>) vm)"
  by (simp_all add: executeInstruction_def Opcode_defs Let_def)

lemma exec_HLT: "executeInstruction \<lparr>op = HLT, a1 = x, a2 = y\<rparr> vm = Inr vm"
  by (simp add: executeInstruction_def Opcode_defs Let_def)

lemma exec_NOP: "executeInstruction \<lparr>op = NOP, a1 = x, a2 = y\<rparr> vm = Inr vm"
  by (simp add: executeInstruction_def Opcode_defs Let_def)

lemma exec_flags:
  "executeInstruction \<lparr>op = STE, a1 = x, a2 = y\<rparr> vm = Inr (setEqual True vm)"
  "executeInstruction \<lparr>op = CLE, a1 = x, a2 = y\<rparr> vm = Inr (setEqual False vm)"
  "executeInstruction \<lparr>op = STG, a1 = x, a2 = y\<rparr> vm = Inr (setGreater True vm)"
  "executeInstruction \<lparr>op = CLG, a1 = x, a2 = y\<rparr> vm = Inr (setGreater False vm)"
  "executeInstruction \<lparr>op = STH, a1 = x, a2 = y\<rparr> vm = Inr (setHigher True vm)"
  "executeInstruction \<lparr>op = CLH, a1 = x, a2 = y\<rparr> vm = Inr (setHigher False vm)"
  "executeInstruction \<lparr>op = STL, a1 = x, a2 = y\<rparr> vm = Inr (setLower True vm)"
  "executeInstruction \<lparr>op = CLL, a1 = x, a2 = y\<rparr> vm = Inr (setLower False vm)"
  by (simp_all add: executeInstruction_def Opcode_defs Let_def)

lemma exec_PUSH:
  "executeInstruction \<lparr>op = PUSH, a1 = k, a2 = y\<rparr> vm =
     (if k = 0 then push (ax (regs vm)) vm
      else if k = 1 then push (bx (regs vm)) vm
      else if k = 2 then push (cx (regs vm)) vm
      else if k = 3 then push (dx (regs vm)) vm
      else Inl (InvalidRegisterForPUSH, vm))"
  by (simp add: executeInstruction_def Opcode_defs Let_def)

lemma exec_POP:
  "executeInstruction \<lparr>op = POP, a1 = k, a2 = y\<rparr> vm =
     (if k = 0 then
        (case pop vm of Inl e \<Rightarrow> Inl e
         | Inr (v, vm1) \<Rightarrow> Inr (set_regs ((regs vm1)\<lparr>ax := v\<rparr>) vm1))
      else if k = 1 then
        (case pop vm of Inl e \<Rightarrow> Inl e
         | Inr (v, vm1) \<Rightarrow> Inr (set_regs ((regs vm1)\<lparr>bx := v\<rparr>) vm1))
      else if k = 2 then
        (case pop vm of Inl e \<Rightarrow> Inl e
         | Inr (v, vm1) \<Rightarrow> Inr (set_regs ((regs vm1)\<lparr>cx := v\<rparr>) vm1))
      else if k = 3 then
        (case pop vm of Inl e \<Rightarrow> Inl e
         | Inr (v, vm1) \<Rightarrow> Inr (set_regs ((regs vm1)\<lparr>dx := v\<rparr>) vm1))
      else Inl (InvalidRegisterForPOP, vm))"
  by (simp add: executeInstruction_def Opcode_defs Let_def)

lemma exec_unrecognized:
  "\<not> recognized (op instr) \<Longrightarrow> executeInstruction instr vm = Inl (IllegalInstruction, vm)"
  by (simp add: executeInstruction_def recognized_def sizeMap_def Let_def)

lemma size_unrecognized: "\<not> recognized t \<Longrightarrow> getInstructionSize t = 0"
  by (simp add: getInstructionSize_def recognized_def sizeMap_def)

lemma size_recognized: "recognized t \<Longrightarrow> getInstructionSize t = 1 \<or> getInstructionSize t = 3"
  unfolding recognized_def sizeMap_def by (auto simp: size_of_opcode)

subsection \<open>Memory of the right length\<close>

lemma unat_lt_SIZE: "unat (a :: u16) < SIZE"
  using unsigned_less [of a, where ?'a = nat] by (simp add: SIZE_def)

lemma lt_SIZE_iff: "(n < SIZE) = (n < 65536)"
  by (simp add: SIZE_def)

lemma mem_at_ok: "length (data m) = SIZE \<Longrightarrow> mem_at m a = Some (data m ! unat a)"
  by (simp add: mem_at_def unat_lt_SIZE)

lemma mem_put_ok:
  "length (data m) = SIZE \<Longrightarrow> mem_put m a v = Some (m\<lparr>data := (data m)[unat a := v]\<rparr>)"
  by (simp add: mem_put_def unat_lt_SIZE)

lemma mem_ok_VM_init: "mem_ok VM_init"
  by (simp add: mem_ok_def VM_init_def)

subsection \<open>Fetch, by encoded size\<close>

lemma sz_cmp:
  "(2::u8) \<le> 3" "\<not> (2::u8) \<le> 1" "\<not> (2::u8) \<le> 0"
  by (simp_all add: word_le_nat_alt)

lemma fetch_size0:
  assumes "mem_ok vm" and "getInstructionSize (data (memory vm) ! unat (ip (regs vm))) = 0"
  shows "fetchNextInstruction vm =
           Inr (\<lparr>op = data (memory vm) ! unat (ip (regs vm)), a1 = 0, a2 = 0\<rparr>, vm)"
  using assms by (simp add: fetchNextInstruction_def mem_ok_def mem_at_ok sz_cmp Let_def)

lemma fetch_size1:
  assumes "mem_ok vm" and "getInstructionSize (data (memory vm) ! unat (ip (regs vm))) = 1"
  shows "fetchNextInstruction vm =
           Inr (\<lparr>op = data (memory vm) ! unat (ip (regs vm)), a1 = 0, a2 = 0\<rparr>,
                set_regs ((regs vm)\<lparr>ip := ip (regs vm) + 1\<rparr>) vm)"
  using assms by (simp add: fetchNextInstruction_def mem_ok_def mem_at_ok sz_cmp Let_def)

lemma fetch_size3:
  assumes "mem_ok vm" and "getInstructionSize (data (memory vm) ! unat (ip (regs vm))) = 3"
  shows "fetchNextInstruction vm =
           Inr (\<lparr>op = data (memory vm) ! unat (ip (regs vm)),
                 a1 = ucast (data (memory vm) ! unat (ip (regs vm) + 1))
                      OR push_bit 8 (ucast (data (memory vm) ! unat (ip (regs vm) + 2))),
                 a2 = 0\<rparr>,
                set_regs ((regs vm)\<lparr>ip := ip (regs vm) + 3\<rparr>) vm)"
  using assms by (simp add: fetchNextInstruction_def mem_ok_def mem_at_ok sz_cmp Let_def)

subsection \<open>The loader, by encoded size\<close>

lemma loadInstruction_small:
  "getInstructionSize (op instr) = 0 \<or> getInstructionSize (op instr) = 1 \<Longrightarrow>
   loadInstruction instr vm =
     vm\<lparr>memory := raw_put (memory vm) (breakLine vm) (op instr), breakLine := breakLine vm + 1\<rparr>"
  by (auto simp add: loadInstruction_def sz_cmp)

lemma mem_ok_load1: "mem_ok vm \<Longrightarrow> mem_ok (loadInstruction instr vm)"
  by (simp add: mem_ok_def loadInstruction_def raw_put_def Let_def)

lemma loadInstruction_3:
  "getInstructionSize (op instr) = 3 \<Longrightarrow>
   loadInstruction instr vm =
     vm\<lparr>memory := raw_put (raw_put (raw_put (memory vm) (breakLine vm) (op instr))
                        (breakLine vm + 1) (ucast (a1 instr AND 0xff)))
                        (breakLine vm + 2) (ucast (drop_bit 8 (a1 instr) AND 0xff)),
        breakLine := breakLine vm + 3\<rparr>"
  by (simp add: loadInstruction_def Let_def sz_cmp) (simp add: add.commute)

subsection \<open>The cycle, one turn at a time\<close>

lemma step_halts:
  "step vm = Inr (instr, vm') \<Longrightarrow> op instr = HLT \<Longrightarrow> execute vm = Some (Inr vm')"
  by (subst execute.simps) simp

lemma step_continues:
  "step vm = Inr (instr, vm') \<Longrightarrow> op instr \<noteq> HLT \<Longrightarrow> execute vm = execute vm'"
  by (subst execute.simps) simp

lemma step_faults:
  "step vm = Inl e \<Longrightarrow> execute vm = Some (Inl e)"
  by (subst execute.simps) simp

text \<open>Rules that evaluate one turn on a machine given explicitly.\<close>

lemmas run_simps =
  step_def fetchNextInstruction_def mem_at_def Let_def lt_SIZE_iff size_of_opcode sz_cmp
  exec_MOV exec_HLT exec_NOP exec_DIV exec_ADD regs_def set_regs_def VM_init_def

subsection \<open>Flags\<close>

lemma getters_as_bits:
  "isEqual vm = bit (flags (regs vm)) 3"
  "isGreater vm = bit (flags (regs vm)) 2"
  "isHigher vm = bit (flags (regs vm)) 1"
  "isLower vm = bit (flags (regs vm)) 0"
proof -
  have b: "(w AND 2 ^ k \<noteq> 0) = bit w k" for w :: u16 and k
    by (simp add: and_exp_eq_0_iff_not_bit)
  show "isEqual vm = bit (flags (regs vm)) 3"
    using b [of "flags (regs vm)" 3] by (simp add: isEqual_def Equal_def)
  show "isGreater vm = bit (flags (regs vm)) 2"
    using b [of "flags (regs vm)" 2] by (simp add: isGreater_def Greater_def)
  show "isHigher vm = bit (flags (regs vm)) 1"
    using b [of "flags (regs vm)" 1] by (simp add: isHigher_def Higher_def)
  show "isLower vm = bit (flags (regs vm)) 0"
    using b [of "flags (regs vm)" 0] by (simp add: isLower_def Lower_def)
qed

lemma bit_setFlag:
  "bit (flags (regs (setFlag (2 ^ k) val vm))) n =
     (if n = k \<and> k < 16 then val else bit (flags (regs vm)) n)"
  by (auto simp add: setFlag_def bit_or_iff bit_and_iff bit_not_iff bit_exp_iff dest: bit_imp_le_length)

lemma masks_as_powers:
  "Equal = 2 ^ 3" "Greater = 2 ^ 2" "Higher = 2 ^ 1" "Lower = 2 ^ 0"
  by (simp_all add: Flag_defs)

lemma setFlag_frame:
  "same_except_flags vm (setEqual val vm)" "same_except_flags vm (setGreater val vm)"
  "same_except_flags vm (setHigher val vm)" "same_except_flags vm (setLower val vm)"
  by (simp_all add: same_except_flags_def setFlag_def
        setEqual_def setGreater_def setHigher_def setLower_def)

lemma flag_bits_set:
  "flag_bits (setEqual val vm) = (val, isGreater vm, isHigher vm, isLower vm)"
  "flag_bits (setGreater val vm) = (isEqual vm, val, isHigher vm, isLower vm)"
  "flag_bits (setHigher val vm) = (isEqual vm, isGreater vm, val, isLower vm)"
  "flag_bits (setLower val vm) = (isEqual vm, isGreater vm, isHigher vm, val)"
  unfolding flag_bits_def getters_as_bits setEqual_def setGreater_def setHigher_def setLower_def
    masks_as_powers bit_setFlag
  by simp_all

subsection \<open>Bytes of a 16-bit value\<close>

lemma ff_mask: "(0xff :: u16) = mask 8"
  by (simp add: mask_eq_exp_minus_1)

lemma low_byte: "(ucast (v AND 0xff) :: u8) = ucast v" for v :: u16
  unfolding ff_mask by (rule bit_word_eqI) (auto simp add: bit_simps)

lemma high_byte: "(ucast (drop_bit 8 v AND 0xff) :: u8) = ucast (drop_bit 8 v)" for v :: u16
  unfolding ff_mask by (rule bit_word_eqI) (auto simp add: bit_simps)

lemma bytes_recombine:
  "ucast (ucast v :: u8) OR push_bit 8 (ucast (ucast (drop_bit 8 v) :: u8)) = v" for v :: u16
  by (rule bit_word_eqI) (auto simp add: bit_simps dest: bit_imp_le_length)

lemma unat_u8_less: "unat b < 256" for b :: u8
  using unsigned_less [of b, where ?'a = nat] by simp

lemma unat_u16_less: "unat v < 65536" for v :: u16
  using unsigned_less [of v, where ?'a = nat] by simp

lemma unat_low_byte: "unat (ucast v :: u8) = unat v mod 256" for v :: u16
  by (simp add: unsigned_ucast_eq take_bit_eq_mod)

lemma unat_high_byte: "unat (ucast (drop_bit 8 v) :: u8) = unat v div 256" for v :: u16
proof -
  have "unat v div 256 < 256"
    using unat_u16_less [of v] by simp
  then show ?thesis
    by (simp only: unsigned_ucast_eq unat_drop_bit_eq)
       (simp add: drop_bit_eq_div take_bit_eq_mod)
qed

lemma unat_recombine:
  "unat (ucast lo OR push_bit 8 (ucast hi) :: u16) = unat lo + 256 * unat hi"
  for lo hi :: u8
proof -
  have d: "(ucast lo :: u16) AND push_bit 8 (ucast hi) = 0"
    by (rule bit_word_eqI) (auto simp add: bit_simps dest: bit_imp_le_length)
  have l: "unat (ucast lo :: u16) = unat lo"
    using unat_u8_less [of lo] by (simp add: unsigned_ucast_eq take_bit_eq_mod)
  have h: "unat (push_bit 8 (ucast hi :: u16)) = 256 * unat hi"
    using unat_u8_less [of hi]
    by (simp only: unsigned_push_bit_eq unsigned_ucast_eq)
       (simp add: take_bit_eq_mod push_bit_eq_mult)
  have "unat (ucast lo + push_bit 8 (ucast hi) :: u16) = unat lo + 256 * unat hi"
    using unat_u8_less [of lo] unat_u8_less [of hi] l h
    by (simp add: unat_word_ariths)
  then show ?thesis
    by (simp add: disjunctive_add_eq_or [OF d])
qed

subsection \<open>Push and pop on a memory of the right length\<close>

lemma unat_eq_simp: "(unat a = unat b) = (a = b)" for a b :: u16
  by (simp add: word_unat_eq_iff)

lemma push_ok:
  assumes "mem_ok vm" and "\<not> sp (regs vm) < 2"
  shows "push v vm =
           Inr ((set_regs ((regs vm)\<lparr>sp := sp (regs vm) - 2\<rparr>) vm)
                  \<lparr>memory := (memory vm)\<lparr>data := (data (memory vm))
                      [unat (sp (regs vm) - 2) := ucast v,
                       unat (sp (regs vm) - 2 + 1) := ucast (drop_bit 8 v)]\<rparr>\<rparr>)"
  using assms
  by (simp add: push_def mem_ok_def mem_put_ok Let_def low_byte high_byte)

lemma pop_ok:
  assumes "mem_ok vm" and "\<not> unat (sp (regs vm)) > SIZE - 2"
  shows "pop vm =
           Inr (ucast (data (memory vm) ! unat (sp (regs vm)))
                  OR push_bit 8 (ucast (data (memory vm) ! unat (sp (regs vm) + 1))),
                set_regs ((regs vm)\<lparr>sp := sp (regs vm) + 2\<rparr>) vm)"
  using assms
  by (simp add: pop_def mem_ok_def mem_at_ok)

lemma push_overflow: "sp (regs vm) < 2 \<Longrightarrow> push v vm = Inl (StackOverflow, vm)"
  by (simp add: push_def)

lemma pop_underflow: "unat (sp (regs vm)) > SIZE - 2 \<Longrightarrow> pop vm = Inl (StackUnderflow, vm)"
  by (simp add: pop_def)

lemma push_then_pop:
  assumes "mem_ok vm" and "\<not> sp (regs vm) < 2"
  shows "\<exists>vm1 vm2. push v vm = Inr vm1 \<and> pop vm1 = Inr (v, vm2)
           \<and> regs vm2 = regs vm \<and> memory vm2 = memory vm1 \<and> breakLine vm2 = breakLine vm"
proof -
  let ?s = "sp (regs vm) - 2"
  let ?d = "(data (memory vm))[unat ?s := ucast v, unat (?s + 1) := ucast (drop_bit 8 v)]"
  let ?vm1 = "(set_regs ((regs vm)\<lparr>sp := ?s\<rparr>) vm)\<lparr>memory := (memory vm)\<lparr>data := ?d\<rparr>\<rparr>"
  have len: "length (data (memory vm)) = SIZE"
    using assms(1) by (simp add: mem_ok_def)
  have p: "push v vm = Inr ?vm1"
    using assms by (rule push_ok)
  have ok1: "mem_ok ?vm1"
    using len by (simp add: mem_ok_def)
  have "unat ?s = unat (sp (regs vm)) - 2"
    using assms(2) by (simp add: unat_sub word_less_nat_alt word_le_nat_alt not_less)
  moreover have "unat (sp (regs vm)) < 65536"
    by (rule unat_u16_less)
  ultimately have room: "\<not> unat (sp (regs ?vm1)) > SIZE - 2"
    by (simp add: SIZE_def)
  have lo: "data (memory ?vm1) ! unat (sp (regs ?vm1)) = ucast v"
    using len by (simp add: unat_lt_SIZE nth_list_update unat_eq_simp)
  have hi: "data (memory ?vm1) ! unat (sp (regs ?vm1) + 1) = ucast (drop_bit 8 v)"
    using len by (simp add: unat_lt_SIZE)
  have "pop ?vm1 = Inr (ucast (ucast v :: u8) OR push_bit 8 (ucast (ucast (drop_bit 8 v) :: u8)),
                        set_regs ((regs ?vm1)\<lparr>sp := sp (regs ?vm1) + 2\<rparr>) ?vm1)"
    unfolding pop_ok [OF ok1 room] lo hi ..
  then have q: "pop ?vm1 = Inr (v, set_regs ((regs ?vm1)\<lparr>sp := sp (regs ?vm1) + 2\<rparr>) ?vm1)"
    by (simp only: bytes_recombine)
  show ?thesis
    using p q by simp
qed

subsection \<open>The loader over a whole program\<close>

lemma size_cases:
  "getInstructionSize t = 0 \<or> getInstructionSize t = 1 \<or> getInstructionSize t = 3"
  using size_recognized [of t] size_unrecognized [of t] by blast

lemma encodedLength_cases:
  "encodedLength instr = (if getInstructionSize (op instr) = 3 then 3 else 1)"
  using size_cases [of "op instr"] by (auto simp add: encodedLength_def sz_cmp)

lemma loadInstruction_cursor:
  "breakLine (loadInstruction instr vm) = breakLine vm + of_nat (encodedLength instr)"
  using size_cases [of "op instr"]
  by (auto simp add: encodedLength_cases loadInstruction_small loadInstruction_3)

lemma loadInstruction_regs: "regs (loadInstruction instr vm) = regs vm"
  using size_cases [of "op instr"]
  by (auto simp add: loadInstruction_small loadInstruction_3)

lemma loadInstruction_tag:
  assumes "mem_ok vm"
  shows "mem_at (memory (loadInstruction instr vm)) (breakLine vm) = Some (op instr)"
proof -
  have len: "length (data (memory vm)) = SIZE"
    using assms by (simp add: mem_ok_def)
  from size_cases [of "op instr"] show ?thesis
    using len
    by (auto simp add: loadInstruction_small loadInstruction_3 raw_put_def mem_at_def
          unat_lt_SIZE nth_list_update unat_eq_simp)
qed

lemma programLength_simps [simp]:
  "programLength [] = 0"
  "programLength (instr # program) = encodedLength instr + programLength program"
  "programLength (xs @ ys) = programLength xs + programLength ys"
  by (simp_all add: programLength_def)

lemma loadProgram_append:
  "loadProgram (xs @ ys) vm = loadProgram ys (loadProgram xs vm)"
  by (induction xs arbitrary: vm) simp_all

lemma loadProgram_cursor:
  "breakLine (loadProgram program vm) = breakLine vm + of_nat (programLength program)"
  by (induction program arbitrary: vm) (simp_all add: loadInstruction_cursor)

lemma loadProgram_regs: "regs (loadProgram program vm) = regs vm"
  by (induction program arbitrary: vm) (simp_all add: loadInstruction_regs)

lemma mem_ok_loadProgram: "mem_ok vm \<Longrightarrow> mem_ok (loadProgram program vm)"
  by (induction program arbitrary: vm) (simp_all add: mem_ok_load1)

lemma loadProgram_last_tag:
  assumes "mem_ok vm"
  shows "mem_at (memory (loadProgram (ps @ [instr]) vm))
           (breakLine vm + of_nat (programLength ps)) = Some (op instr)"
  using loadInstruction_tag [OF mem_ok_loadProgram [OF assms], of instr ps]
  by (simp add: loadProgram_append loadProgram_cursor)

lemma unat_cursor: "unat (b + of_nat n :: u16) = (unat b + n) mod SIZE"
  by (simp add: unat_word_ariths unat_of_nat SIZE_def mod_add_right_eq)

lemma programLength_nops: "programLength (replicate n nop) = n"
  by (induction n) (simp_all add: encodedLength_cases nop_def size_of_opcode)

lemma of_nat_SIZE: "(of_nat SIZE :: u16) = 0"
  by (simp add: SIZE_def)

lemma nops_snoc: "replicate (Suc SIZE) nop = replicate SIZE nop @ [nop]"
  by (simp add: replicate_append_same)

lemma load_nops_overwrites:
  "mem_at (memory (loadProgram (replicate (Suc SIZE) nop) VM_init)) 0 = Some NOP"
proof -
  have addr: "breakLine VM_init + of_nat (programLength (replicate SIZE nop)) = 0"
    by (simp add: programLength_nops of_nat_SIZE VM_init_def)
  have opn: "op nop = NOP"
    by (simp add: nop_def)
  have "mem_at (memory (loadProgram (replicate SIZE nop @ [nop]) VM_init))
          (breakLine VM_init + of_nat (programLength (replicate SIZE nop))) = Some (op nop)"
    using mem_ok_VM_init by (rule loadProgram_last_tag)
  then show ?thesis
    unfolding addr opn nops_snoc [symmetric] .
qed

subsection \<open>The loader as a stream of bytes\<close>

lemma store_simps [simp]:
  "breakLine (store b vm) = breakLine vm + 1"
  "regs (store b vm) = regs vm"
  "data (memory (store b vm)) = (data (memory vm))[unat (breakLine vm) := b]"
  by (simp_all add: store_def raw_put_def)

lemma mem_ok_store [simp]: "mem_ok (store b vm) = mem_ok vm"
  by (simp add: mem_ok_def)

lemma store_checked_ok: "mem_ok vm \<Longrightarrow> store_checked b vm = Some (store b vm)"
  by (simp add: store_checked_def store_def mem_ok_def unat_lt_SIZE)

lemma loadInstruction_as_bytes: "loadInstruction instr vm = write_bytes (encode instr) vm"
  using size_cases [of "op instr"]
  by (auto simp add: loadInstruction_small loadInstruction_3 encode_def store_def sz_cmp Let_def
        add.assoc)

lemma write_bytes_append: "write_bytes (xs @ ys) vm = write_bytes ys (write_bytes xs vm)"
  by (induction xs arbitrary: vm) simp_all

lemma loadProgram_as_bytes: "loadProgram program vm = write_bytes (encodeProgram program) vm"
  by (induction program arbitrary: vm)
     (simp_all add: encodeProgram_def loadInstruction_as_bytes write_bytes_append)

lemma length_encode: "length (encode instr) = encodedLength instr"
  by (simp add: encode_def encodedLength_def Let_def)

lemma length_encodeProgram: "length (encodeProgram program) = programLength program"
  by (induction program) (simp_all add: encodeProgram_def length_encode)

lemma mem_ok_write_bytes: "mem_ok (write_bytes bs vm) = mem_ok vm"
  by (induction bs arbitrary: vm) simp_all

lemma loadInstruction_checked_ok:
  assumes "mem_ok vm"
  shows "loadInstruction_checked instr vm = Some (loadInstruction instr vm)"
  using size_cases [of "op instr"] assms
  by (auto simp add: loadInstruction_checked_def loadInstruction_as_bytes encode_def
        store_checked_ok sz_cmp)

lemma loadProgram_checked_ok:
  "mem_ok vm \<Longrightarrow> loadProgram_checked program vm = Some (loadProgram program vm)"
  by (induction program arbitrary: vm) (simp_all add: loadInstruction_checked_ok mem_ok_load1)

lemma length_write_bytes:
  "length (data (memory (write_bytes bs vm))) = length (data (memory vm))"
  by (induction bs arbitrary: vm) simp_all

lemma write_bytes_elsewhere:
  assumes "\<forall>j < length bs. breakLine vm + of_nat j \<noteq> a"
  shows "data (memory (write_bytes bs vm)) ! unat a = data (memory vm) ! unat a"
  using assms
proof (induction bs arbitrary: vm)
  case Nil
  then show ?case by simp
next
  case (Cons b bs)
  have first: "breakLine vm \<noteq> a"
    using Cons.prems by force
  have rest: "\<forall>j < length bs. breakLine (store b vm) + of_nat j \<noteq> a"
  proof (intro allI impI)
    fix j assume "j < length bs"
    then have "breakLine vm + of_nat (Suc j) \<noteq> a"
      using Cons.prems [rule_format, of "Suc j"] by simp
    then show "breakLine (store b vm) + of_nat j \<noteq> a"
      by (simp add: add.assoc)
  qed
  have "data (memory (write_bytes (b # bs) vm)) ! unat a = data (memory (store b vm)) ! unat a"
    using Cons.IH [OF rest] by simp
  also have "\<dots> = data (memory vm) ! unat a"
    using first by (simp add: unat_eq_simp)
  finally show ?case .
qed

lemma of_nat_u16_nonzero: "0 < n \<Longrightarrow> n < SIZE \<Longrightarrow> (of_nat n :: u16) \<noteq> 0"
  by (simp add: SIZE_def of_nat_eq_0_iff unat_of_nat word_unat_eq_iff)

lemma write_bytes_recent:
  assumes "length (data (memory vm)) = SIZE" and "j < length bs" and "length bs \<le> j + SIZE"
  shows "data (memory (write_bytes bs vm)) ! unat (breakLine vm + of_nat j) = bs ! j"
  using assms
proof (induction bs arbitrary: vm j)
  case Nil
  then show ?case by simp
next
  case (Cons b bs)
  show ?case
  proof (cases j)
    case 0
    have short: "length bs < SIZE"
      using Cons.prems(3) 0 by simp
    have "\<forall>k < length bs. breakLine (store b vm) + of_nat k \<noteq> breakLine vm"
    proof (intro allI impI)
      fix k assume "k < length bs"
      then have "(of_nat (Suc k) :: u16) \<noteq> 0"
        using short by (intro of_nat_u16_nonzero) simp_all
      then show "breakLine (store b vm) + of_nat k \<noteq> breakLine vm"
        by (simp add: add.assoc)
    qed
    then have "data (memory (write_bytes bs (store b vm))) ! unat (breakLine vm)
                 = data (memory (store b vm)) ! unat (breakLine vm)"
      by (rule write_bytes_elsewhere)
    also have "\<dots> = b"
      using Cons.prems(1) by (simp add: unat_lt_SIZE)
    finally show ?thesis
      using 0 by simp
  next
    case (Suc i)
    have len: "length (data (memory (store b vm))) = SIZE"
      using Cons.prems(1) by simp
    have "data (memory (write_bytes bs (store b vm))) ! unat (breakLine (store b vm) + of_nat i)
            = bs ! i"
      using Cons.prems(2,3) Suc by (intro Cons.IH [OF len]) simp_all
    then show ?thesis
      using Suc by (simp add: add.assoc)
  qed
qed

lemma encodeProgram_nops: "encodeProgram (replicate n nop) = replicate n NOP"
  by (induction n) (simp_all add: encodeProgram_def encode_def nop_def size_of_opcode sz_cmp)

lemma of_nat_u16_neq: "n < SIZE \<Longrightarrow> m < SIZE \<Longrightarrow> n \<noteq> m \<Longrightarrow> (of_nat n :: u16) \<noteq> of_nat m"
  by (simp add: SIZE_def unat_of_nat word_unat_eq_iff)

section \<open>Flag operations\<close>

text \<open>
  Claim C7.  For each of the four flags and every machine state (so every one of the 16
  combinations of the four flags), the set operation of the flag succeeds and leaves the
  flag set, the clear operation succeeds and leaves it clear, and either leaves the other
  three flags, the four general-purpose registers, the stack pointer, the instruction
  pointer and the memory as they were.  \<open>flag_bits\<close> lists the flags in the order Equal,
  Greater, Higher, Lower.
\<close>

theorem flag_ops_exact:
  "\<exists>e1 e0 g1 g0 h1 h0 l1 l0.
      executeInstruction \<lparr>op = STE, a1 = x, a2 = y\<rparr> vm = Inr e1
    \<and> flag_bits e1 = (True, isGreater vm, isHigher vm, isLower vm) \<and> same_except_flags vm e1
    \<and> executeInstruction \<lparr>op = CLE, a1 = x, a2 = y\<rparr> vm = Inr e0
    \<and> flag_bits e0 = (False, isGreater vm, isHigher vm, isLower vm) \<and> same_except_flags vm e0
    \<and> executeInstruction \<lparr>op = STG, a1 = x, a2 = y\<rparr> vm = Inr g1
    \<and> flag_bits g1 = (isEqual vm, True, isHigher vm, isLower vm) \<and> same_except_flags vm g1
    \<and> executeInstruction \<lparr>op = CLG, a1 = x, a2 = y\<rparr> vm = Inr g0
    \<and> flag_bits g0 = (isEqual vm, False, isHigher vm, isLower vm) \<and> same_except_flags vm g0
    \<and> executeInstruction \<lparr>op = STH, a1 = x, a2 = y\<rparr> vm = Inr h1
    \<and> flag_bits h1 = (isEqual vm, isGreater vm, True, isLower vm) \<and> same_except_flags vm h1
    \<and> executeInstruction \<lparr>op = CLH, a1 = x, a2 = y\<rparr> vm = Inr h0
    \<and> flag_bits h0 = (isEqual vm, isGreater vm, False, isLower vm) \<and> same_except_flags vm h0
    \<and> executeInstruction \<lparr>op = STL, a1 = x, a2 = y\<rparr> vm = Inr l1
    \<and> flag_bits l1 = (isEqual vm, isGreater vm, isHigher vm, True) \<and> same_except_flags vm l1
    \<and> executeInstruction \<lparr>op = CLL, a1 = x, a2 = y\<rparr> vm = Inr l0
    \<and> flag_bits l0 = (isEqual vm, isGreater vm, isHigher vm, False) \<and> same_except_flags vm l0"
  unfolding exec_flags
  by (simp add: flag_bits_set setFlag_frame)

section \<open>Division\<close>

text \<open>
  Claim C6.  When the base register is 0, \<^verbatim>\<open>DIV\<close> fails with \<open>DivisionByZero\<close> and the
  machine, the primary register included, is as it was before the instruction.  When the
  base register is not 0, \<^verbatim>\<open>DIV\<close> succeeds and sets the primary register to the
  (unsigned, truncating) quotient of primary by base, changing nothing else.
\<close>

theorem div_by_zero_faults:
  "(bx (regs vm) = 0 \<longrightarrow>
      executeInstruction \<lparr>op = DIV, a1 = x, a2 = y\<rparr> vm = Inl (DivisionByZero, vm))
   \<and> (bx (regs vm) \<noteq> 0 \<longrightarrow>
        (\<exists>vm'. executeInstruction \<lparr>op = DIV, a1 = x, a2 = y\<rparr> vm = Inr vm'
           \<and> uint (ax (regs vm')) = uint (ax (regs vm)) div uint (bx (regs vm))
           \<and> same_except_ax vm vm'))"
  by (simp add: exec_DIV same_except_ax_def uint_div)

theorem div_by_zero_faults_witness:
  "bx (regs (set_regs ((regs VM_init)\<lparr>ax := 0x20, bx := 0\<rparr>) VM_init)) = 0
   \<and> executeInstruction \<lparr>op = DIV, a1 = 0, a2 = 0\<rparr>
         (set_regs ((regs VM_init)\<lparr>ax := 0x20, bx := 0\<rparr>) VM_init)
       = Inl (DivisionByZero, set_regs ((regs VM_init)\<lparr>ax := 0x20, bx := 0\<rparr>) VM_init)
   \<and> bx (regs (set_regs ((regs VM_init)\<lparr>ax := 0x20, bx := 4\<rparr>) VM_init)) \<noteq> 0
   \<and> (\<exists>vm'. executeInstruction \<lparr>op = DIV, a1 = 0, a2 = 0\<rparr>
                (set_regs ((regs VM_init)\<lparr>ax := 0x20, bx := 4\<rparr>) VM_init) = Inr vm'
            \<and> uint (ax (regs vm')) = 8)"
  using div_by_zero_faults [of "set_regs ((regs VM_init)\<lparr>ax := 0x20, bx := 0\<rparr>) VM_init" 0 0]
        div_by_zero_faults [of "set_regs ((regs VM_init)\<lparr>ax := 0x20, bx := 4\<rparr>) VM_init" 0 0]
  by auto

text \<open>The scenario of the demonstration driver: the division by zero ends the run.\<close>

lemma div_by_zero_scenario:
  "\<exists>vm'. execute (loadProgram [\<lparr>op = MOV, a1 = 0x0020, a2 = 0\<rparr>,
                                \<lparr>op = MOV_BX, a1 = 0x0000, a2 = 0\<rparr>,
                                \<lparr>op = DIV, a1 = 0, a2 = 0\<rparr>,
                                \<lparr>op = HLT, a1 = 0, a2 = 0\<rparr>] VM_init)
           = Some (Inl (DivisionByZero, vm')) \<and> ax (regs vm') = 0x0020"
proof -
  let ?m = "\<lparr>data = (replicate SIZE 0)[0 := MOV, 1 := 0x20, 2 := 0, 3 := MOV_BX, 4 := 0, 5 := 0,
                                        6 := DIV, 7 := HLT]\<rparr>"
  let ?vm0 = "VM_init\<lparr>memory := ?m, breakLine := 8\<rparr>"
  let ?vm1 = "set_regs ((regs ?vm0)\<lparr>ip := 3, ax := 0x20\<rparr>) ?vm0"
  let ?vm2 = "set_regs ((regs ?vm0)\<lparr>ip := 6, ax := 0x20\<rparr>) ?vm0"
  let ?vm3 = "set_regs ((regs ?vm0)\<lparr>ip := 7, ax := 0x20\<rparr>) ?vm0"
  have load: "loadProgram [\<lparr>op = MOV, a1 = 0x0020, a2 = 0\<rparr>,
                                \<lparr>op = MOV_BX, a1 = 0x0000, a2 = 0\<rparr>,
                                \<lparr>op = DIV, a1 = 0, a2 = 0\<rparr>,
                                \<lparr>op = HLT, a1 = 0, a2 = 0\<rparr>] VM_init = ?vm0"
    by (simp add: loadInstruction_small loadInstruction_3 size_of_opcode)
       (simp add: VM_init_def raw_put_def)
  have s1: "step ?vm0 = Inr (\<lparr>op = MOV, a1 = 0x20, a2 = 0\<rparr>, ?vm1)"
    by (simp add: run_simps)
  have s2: "step ?vm1 = Inr (\<lparr>op = MOV_BX, a1 = 0, a2 = 0\<rparr>, ?vm2)"
    by (simp add: run_simps)
  have s3: "step ?vm2 = Inl (DivisionByZero, ?vm3)"
    by (simp add: run_simps)
  have "execute ?vm0 = execute ?vm1"
    using step_continues [OF s1] by (simp add: Opcode_defs)
  also have "\<dots> = execute ?vm2"
    using step_continues [OF s2] by (simp add: Opcode_defs)
  also have "\<dots> = Some (Inl (DivisionByZero, ?vm3))"
    using step_faults [OF s3] by simp
  finally have "execute ?vm0 = Some (Inl (DivisionByZero, ?vm3)) \<and> ax (regs ?vm3) = 0x20"
    by simp
  then show ?thesis
    unfolding load by blast
qed

section \<open>Moves\<close>

text \<open>
  Claim C9.  For every 16-bit value \<open>v\<close> and each of the four general-purpose registers,
  the move into that register with operand \<open>v\<close> succeeds and the register then reads \<open>v\<close>.
  The program \<^verbatim>\<open>[MOV 0x1234, HLT]\<close>, loaded into a fresh machine and run, halts with
  the primary register equal to \<^verbatim>\<open>0x1234\<close>.
\<close>

theorem move_then_read:
  "(\<exists>vm'. executeInstruction \<lparr>op = MOV, a1 = v, a2 = y\<rparr> vm = Inr vm' \<and> ax (regs vm') = v)
   \<and> (\<exists>vm'. executeInstruction \<lparr>op = MOV_BX, a1 = v, a2 = y\<rparr> vm = Inr vm' \<and> bx (regs vm') = v)
   \<and> (\<exists>vm'. executeInstruction \<lparr>op = MOV_CX, a1 = v, a2 = y\<rparr> vm = Inr vm' \<and> cx (regs vm') = v)
   \<and> (\<exists>vm'. executeInstruction \<lparr>op = MOV_DX, a1 = v, a2 = y\<rparr> vm = Inr vm' \<and> dx (regs vm') = v)
   \<and> (\<exists>vm'. execute (loadProgram [\<lparr>op = MOV, a1 = 0x1234, a2 = 0\<rparr>,
                                      \<lparr>op = HLT, a1 = 0, a2 = 0\<rparr>] VM_init) = Some (Inr vm')
             \<and> ax (regs vm') = 0x1234)"
proof -
  let ?m = "\<lparr>data = (replicate SIZE 0)[0 := MOV, 1 := 0x34, 2 := 0x12, 3 := HLT]\<rparr>"
  let ?vm0 = "VM_init\<lparr>memory := ?m, breakLine := 4\<rparr>"
  let ?vm1 = "set_regs ((regs ?vm0)\<lparr>ip := 3, ax := 0x1234\<rparr>) ?vm0"
  let ?vm2 = "set_regs ((regs ?vm0)\<lparr>ip := 4, ax := 0x1234\<rparr>) ?vm0"
  have load: "loadProgram [\<lparr>op = MOV, a1 = 0x1234, a2 = 0\<rparr>, \<lparr>op = HLT, a1 = 0, a2 = 0\<rparr>] VM_init = ?vm0"
    by (simp add: loadInstruction_small loadInstruction_3 size_of_opcode)
       (simp add: VM_init_def raw_put_def)
  have s1: "step ?vm0 = Inr (\<lparr>op = MOV, a1 = 0x1234, a2 = 0\<rparr>, ?vm1)"
    by (simp add: run_simps)
  have s2: "step ?vm1 = Inr (\<lparr>op = HLT, a1 = 0, a2 = 0\<rparr>, ?vm2)"
    by (simp add: run_simps)
  have "execute ?vm0 = execute ?vm1"
    using step_continues [OF s1] by (simp add: Opcode_defs)
  also have "\<dots> = Some (Inr ?vm2)"
    using step_halts [OF s2] by simp
  finally have "execute ?vm0 = Some (Inr ?vm2) \<and> ax (regs ?vm2) = 0x1234"
    by simp
  then have run: "\<exists>vm'. execute ?vm0 = Some (Inr vm') \<and> ax (regs vm') = 0x1234"
    by blast
  show ?thesis
    unfolding load using run by (simp add: exec_MOV)
qed

section \<open>Arithmetic\<close>

text \<open>
  Claim C10.  Whatever the primary and base registers hold, \<^verbatim>\<open>ADD\<close>, \<^verbatim>\<open>SUB\<close> and
  \<^verbatim>\<open>MUL\<close> succeed and set the primary register to the sum, the difference and the
  product of the two, reduced modulo \<open>2 ^ 16\<close>; the base, count and data registers, the
  stack pointer, the flag word (and the instruction pointer and the memory) are unchanged.
  The registers are read as unsigned integers (\<open>uint\<close>).
\<close>

theorem arithmetic_wraps:
  "\<exists>vm1 vm2 vm3.
      executeInstruction \<lparr>op = ADD, a1 = x, a2 = y\<rparr> vm = Inr vm1
    \<and> uint (ax (regs vm1)) = (uint (ax (regs vm)) + uint (bx (regs vm))) mod 2 ^ 16
    \<and> same_except_ax vm vm1
    \<and> executeInstruction \<lparr>op = SUB, a1 = x, a2 = y\<rparr> vm = Inr vm2
    \<and> uint (ax (regs vm2)) = (uint (ax (regs vm)) - uint (bx (regs vm))) mod 2 ^ 16
    \<and> same_except_ax vm vm2
    \<and> executeInstruction \<lparr>op = MUL, a1 = x, a2 = y\<rparr> vm = Inr vm3
    \<and> uint (ax (regs vm3)) = (uint (ax (regs vm)) * uint (bx (regs vm))) mod 2 ^ 16
    \<and> same_except_ax vm vm3"
  by (simp add: exec_ADD exec_SUB exec_MUL uint_word_ariths same_except_ax_def)

section \<open>Unrecognized operation tags\<close>

text \<open>
  Claim C3.  When the byte at the instruction pointer is not one of the 21 recognized
  operation tags, one turn of the cycle fails with \<open>IllegalInstruction\<close>, and so does the
  run; the machine at the failure is the machine before the turn, so the four
  general-purpose registers, the stack pointer and the flag word (and the instruction
  pointer) hold what the previous instruction left.  The size lookup does not answer 1 for
  such a tag.
\<close>

theorem unrecognized_tag_faults:
  assumes "mem_ok vm" and "\<not> recognized (data (memory vm) ! unat (ip (regs vm)))"
  shows "step vm = Inl (IllegalInstruction, vm)
         \<and> execute vm = Some (Inl (IllegalInstruction, vm))
         \<and> getInstructionSize (data (memory vm) ! unat (ip (regs vm))) \<noteq> 1"
proof -
  let ?t = "data (memory vm) ! unat (ip (regs vm))"
  have sz: "getInstructionSize ?t = 0"
    using assms(2) by (rule size_unrecognized)
  have "fetchNextInstruction vm = Inr (\<lparr>op = ?t, a1 = 0, a2 = 0\<rparr>, vm)"
    using assms(1) sz by (rule fetch_size0)
  moreover have "executeInstruction \<lparr>op = ?t, a1 = 0, a2 = 0\<rparr> vm = Inl (IllegalInstruction, vm)"
    using assms(2) by (simp add: exec_unrecognized)
  ultimately have st: "step vm = Inl (IllegalInstruction, vm)"
    by (simp add: step_def)
  from st step_faults [OF st] sz show ?thesis
    by simp
qed

theorem unrecognized_tag_faults_witness:
  "mem_ok VM_init \<and> \<not> recognized (data (memory VM_init) ! unat (ip (regs VM_init)))
   \<and> step VM_init = Inl (IllegalInstruction, VM_init)
   \<and> execute VM_init = Some (Inl (IllegalInstruction, VM_init))"
proof -
  have a: "mem_ok VM_init"
    by (rule mem_ok_VM_init)
  have b: "\<not> recognized (data (memory VM_init) ! unat (ip (regs VM_init)))"
    by (simp add: VM_init_def regs_def lt_SIZE_iff recognized_def sizeMap_def Opcode_defs)
  from unrecognized_tag_faults [OF a b] a b show ?thesis
    by simp
qed

section \<open>Stack protocol\<close>

text \<open>
  Claim C5.  On a machine whose memory has its 65536 bytes: \<^verbatim>\<open>push\<close> fails with
  \<open>StackOverflow\<close> when the stack pointer is below 2 and only then; otherwise it succeeds,
  the stack pointer is 2 less, and the bytes at the new stack pointer and just above it
  are the low byte (\<open>v mod 256\<close>) and the high byte (\<open>v div 256\<close>) of the value.
  \<^verbatim>\<open>pop\<close> fails with \<open>StackUnderflow\<close> when the stack pointer exceeds 65534 and only
  then; otherwise it succeeds, returns the low byte at the stack pointer plus 256 times the
  byte above it, leaves the memory alone, and the stack pointer is 2 more (as a 16-bit
  register: from 65534 it becomes 0).
\<close>

theorem push_pop_protocol:
  assumes "mem_ok vm"
  shows "(sp (regs vm) < 2 \<longrightarrow> push v vm = Inl (StackOverflow, vm))
       \<and> (\<not> sp (regs vm) < 2 \<longrightarrow>
            (\<exists>vm' lo hi. push v vm = Inr vm'
               \<and> sp (regs vm') = sp (regs vm) - 2
               \<and> unat (sp (regs vm')) = unat (sp (regs vm)) - 2
               \<and> mem_at (memory vm') (sp (regs vm')) = Some lo
               \<and> mem_at (memory vm') (sp (regs vm') + 1) = Some hi
               \<and> unat lo = unat v mod 256 \<and> unat hi = unat v div 256))
       \<and> (unat (sp (regs vm)) > 65536 - 2 \<longrightarrow> pop vm = Inl (StackUnderflow, vm))
       \<and> (\<not> unat (sp (regs vm)) > 65536 - 2 \<longrightarrow>
            (\<exists>val vm' lo hi. pop vm = Inr (val, vm')
               \<and> mem_at (memory vm) (sp (regs vm)) = Some lo
               \<and> mem_at (memory vm) (sp (regs vm) + 1) = Some hi
               \<and> unat val = unat lo + 256 * unat hi
               \<and> sp (regs vm') = sp (regs vm) + 2
               \<and> unat (sp (regs vm')) = (unat (sp (regs vm)) + 2) mod 65536
               \<and> memory vm' = memory vm))"
proof (intro conjI impI)
  assume "sp (regs vm) < 2"
  then show "push v vm = Inl (StackOverflow, vm)"
    by (rule push_overflow)
next
  assume "unat (sp (regs vm)) > 65536 - 2"
  then show "pop vm = Inl (StackUnderflow, vm)"
    by (simp add: pop_underflow SIZE_def)
next
  assume room: "\<not> sp (regs vm) < 2"
  let ?s = "sp (regs vm) - 2"
  let ?d = "(data (memory vm))[unat ?s := ucast v, unat (?s + 1) := ucast (drop_bit 8 v)]"
  let ?vm' = "(set_regs ((regs vm)\<lparr>sp := ?s\<rparr>) vm)\<lparr>memory := (memory vm)\<lparr>data := ?d\<rparr>\<rparr>"
  have len: "length (data (memory vm)) = SIZE"
    using assms by (simp add: mem_ok_def)
  have p: "push v vm = Inr ?vm'"
    using assms room by (rule push_ok)
  have u: "unat ?s = unat (sp (regs vm)) - 2"
    using room by (simp add: unat_sub word_less_nat_alt word_le_nat_alt not_less)
  have lo: "mem_at (memory ?vm') (sp (regs ?vm')) = Some (ucast v)"
    using len by (simp add: mem_at_ok unat_lt_SIZE nth_list_update unat_eq_simp)
  have hi: "mem_at (memory ?vm') (sp (regs ?vm') + 1) = Some (ucast (drop_bit 8 v))"
    using len by (simp add: mem_at_ok unat_lt_SIZE)
  show "\<exists>vm' lo hi. push v vm = Inr vm'
               \<and> sp (regs vm') = sp (regs vm) - 2
               \<and> unat (sp (regs vm')) = unat (sp (regs vm)) - 2
               \<and> mem_at (memory vm') (sp (regs vm')) = Some lo
               \<and> mem_at (memory vm') (sp (regs vm') + 1) = Some hi
               \<and> unat lo = unat v mod 256 \<and> unat hi = unat v div 256"
    using p u lo hi unat_low_byte [of v] unat_high_byte [of v] by simp
next
  assume some: "\<not> unat (sp (regs vm)) > 65536 - 2"
  have len: "length (data (memory vm)) = SIZE"
    using assms by (simp add: mem_ok_def)
  have p: "pop vm =
           Inr (ucast (data (memory vm) ! unat (sp (regs vm)))
                  OR push_bit 8 (ucast (data (memory vm) ! unat (sp (regs vm) + 1))),
                set_regs ((regs vm)\<lparr>sp := sp (regs vm) + 2\<rparr>) vm)"
    using assms some by (simp add: pop_ok SIZE_def)
  have u: "unat (sp (regs vm) + 2) = (unat (sp (regs vm)) + 2) mod 65536"
    by (simp add: unat_word_ariths)
  show "\<exists>val vm' lo hi. pop vm = Inr (val, vm')
               \<and> mem_at (memory vm) (sp (regs vm)) = Some lo
               \<and> mem_at (memory vm) (sp (regs vm) + 1) = Some hi
               \<and> unat val = unat lo + 256 * unat hi
               \<and> sp (regs vm') = sp (regs vm) + 2
               \<and> unat (sp (regs vm')) = (unat (sp (regs vm)) + 2) mod 65536
               \<and> memory vm' = memory vm"
    using p u len by (simp add: mem_at_ok unat_recombine)
qed

theorem push_pop_protocol_witness:
  "mem_ok VM_init
   \<and> \<not> sp (regs VM_init) < 2
   \<and> (\<exists>vm' lo hi. push 0xABCD VM_init = Inr vm' \<and> sp (regs vm') = 0xFFFD
          \<and> mem_at (memory vm') 0xFFFD = Some lo \<and> mem_at (memory vm') 0xFFFE = Some hi
          \<and> unat lo = 0xCD \<and> unat hi = 0xAB)
   \<and> unat (sp (regs VM_init)) > 65536 - 2
   \<and> pop VM_init = Inl (StackUnderflow, VM_init)
   \<and> mem_ok (set_regs ((regs VM_init)\<lparr>sp := 0\<rparr>) VM_init)
   \<and> sp (regs (set_regs ((regs VM_init)\<lparr>sp := 0\<rparr>) VM_init)) < 2
   \<and> push 0xABCD (set_regs ((regs VM_init)\<lparr>sp := 0\<rparr>) VM_init)
        = Inl (StackOverflow, set_regs ((regs VM_init)\<lparr>sp := 0\<rparr>) VM_init)
   \<and> \<not> unat (sp (regs (set_regs ((regs VM_init)\<lparr>sp := 0\<rparr>) VM_init))) > 65536 - 2
   \<and> (\<exists>val vm'. pop (set_regs ((regs VM_init)\<lparr>sp := 0\<rparr>) VM_init) = Inr (val, vm')
          \<and> sp (regs vm') = 2)"
proof -
  let ?z = "set_regs ((regs VM_init)\<lparr>sp := 0\<rparr>) VM_init"
  have a: "mem_ok VM_init"
    by (rule mem_ok_VM_init)
  have b: "mem_ok ?z"
    using a by simp
  have s: "sp (regs VM_init) = 0xFFFF"
    by (simp add: VM_init_def regs_def)
  from push_pop_protocol [OF a, of "0xABCD"] push_pop_protocol [OF b, of "0xABCD"] a b s
  show ?thesis
    by (simp add: word_less_nat_alt) fastforce
qed

section \<open>Push and pop are inverse\<close>

text \<open>
  Claim C4.  On a machine whose memory has its 65536 bytes and whose stack pointer is at
  least 2, for each register selector 0, 1, 2, 3 (primary, base, count, data) and every
  value the register holds: \<^verbatim>\<open>PUSH\<close> of the register succeeds, the \<^verbatim>\<open>POP\<close> into the same
  register that follows succeeds, and afterwards the register holds the value it held
  before the push and the stack pointer is the one from before the push.
\<close>

theorem push_pop_round_trip:
  assumes "mem_ok vm" and "2 \<le> sp (regs vm)"
  shows "(\<exists>vm1 vm2. executeInstruction \<lparr>op = PUSH, a1 = 0, a2 = x\<rparr> vm = Inr vm1
            \<and> executeInstruction \<lparr>op = POP, a1 = 0, a2 = y\<rparr> vm1 = Inr vm2
            \<and> ax (regs vm2) = ax (regs vm) \<and> sp (regs vm2) = sp (regs vm))
       \<and> (\<exists>vm1 vm2. executeInstruction \<lparr>op = PUSH, a1 = 1, a2 = x\<rparr> vm = Inr vm1
            \<and> executeInstruction \<lparr>op = POP, a1 = 1, a2 = y\<rparr> vm1 = Inr vm2
            \<and> bx (regs vm2) = bx (regs vm) \<and> sp (regs vm2) = sp (regs vm))
       \<and> (\<exists>vm1 vm2. executeInstruction \<lparr>op = PUSH, a1 = 2, a2 = x\<rparr> vm = Inr vm1
            \<and> executeInstruction \<lparr>op = POP, a1 = 2, a2 = y\<rparr> vm1 = Inr vm2
            \<and> cx (regs vm2) = cx (regs vm) \<and> sp (regs vm2) = sp (regs vm))
       \<and> (\<exists>vm1 vm2. executeInstruction \<lparr>op = PUSH, a1 = 3, a2 = x\<rparr> vm = Inr vm1
            \<and> executeInstruction \<lparr>op = POP, a1 = 3, a2 = y\<rparr> vm1 = Inr vm2
            \<and> dx (regs vm2) = dx (regs vm) \<and> sp (regs vm2) = sp (regs vm))"
proof -
  have room: "\<not> sp (regs vm) < 2"
    using assms(2) by (simp add: not_less)
  have rt: "\<exists>vm1 vm2. push v vm = Inr vm1 \<and> pop vm1 = Inr (v, vm2) \<and> regs vm2 = regs vm" for v
    using push_then_pop [OF assms(1) room, of v] by blast
  have A: "\<exists>vm1 vm2. executeInstruction \<lparr>op = PUSH, a1 = 0, a2 = x\<rparr> vm = Inr vm1
            \<and> executeInstruction \<lparr>op = POP, a1 = 0, a2 = y\<rparr> vm1 = Inr vm2
            \<and> ax (regs vm2) = ax (regs vm) \<and> sp (regs vm2) = sp (regs vm)"
    using rt [of "ax (regs vm)"] by (auto simp add: exec_PUSH exec_POP)
  have B: "\<exists>vm1 vm2. executeInstruction \<lparr>op = PUSH, a1 = 1, a2 = x\<rparr> vm = Inr vm1
            \<and> executeInstruction \<lparr>op = POP, a1 = 1, a2 = y\<rparr> vm1 = Inr vm2
            \<and> bx (regs vm2) = bx (regs vm) \<and> sp (regs vm2) = sp (regs vm)"
    using rt [of "bx (regs vm)"] by (auto simp add: exec_PUSH exec_POP)
  have C: "\<exists>vm1 vm2. executeInstruction \<lparr>op = PUSH, a1 = 2, a2 = x\<rparr> vm = Inr vm1
            \<and> executeInstruction \<lparr>op = POP, a1 = 2, a2 = y\<rparr> vm1 = Inr vm2
            \<and> cx (regs vm2) = cx (regs vm) \<and> sp (regs vm2) = sp (regs vm)"
    using rt [of "cx (regs vm)"] by (auto simp add: exec_PUSH exec_POP)
  have D: "\<exists>vm1 vm2. executeInstruction \<lparr>op = PUSH, a1 = 3, a2 = x\<rparr> vm = Inr vm1
            \<and> executeInstruction \<lparr>op = POP, a1 = 3, a2 = y\<rparr> vm1 = Inr vm2
            \<and> dx (regs vm2) = dx (regs vm) \<and> sp (regs vm2) = sp (regs vm)"
    using rt [of "dx (regs vm)"] by (auto simp add: exec_PUSH exec_POP)
  from A B C D show ?thesis
    by (intro conjI)
qed

theorem push_pop_round_trip_witness:
  "mem_ok (set_regs ((regs VM_init)\<lparr>ax := 0xABCD\<rparr>) VM_init)
   \<and> 2 \<le> sp (regs (set_regs ((regs VM_init)\<lparr>ax := 0xABCD\<rparr>) VM_init))
   \<and> (\<exists>vm1 vm2. executeInstruction \<lparr>op = PUSH, a1 = 0, a2 = 0\<rparr>
                      (set_regs ((regs VM_init)\<lparr>ax := 0xABCD\<rparr>) VM_init) = Inr vm1
          \<and> executeInstruction \<lparr>op = POP, a1 = 0, a2 = 0\<rparr> vm1 = Inr vm2
          \<and> ax (regs vm2) = 0xABCD \<and> sp (regs vm2) = 0xFFFF)"
proof -
  let ?vm = "set_regs ((regs VM_init)\<lparr>ax := 0xABCD\<rparr>) VM_init"
  have a: "mem_ok ?vm"
    using mem_ok_VM_init by simp
  have b: "2 \<le> sp (regs ?vm)"
    by (simp add: VM_init_def regs_def set_regs_def word_le_nat_alt)
  have c: "ax (regs ?vm) = 0xABCD" "sp (regs ?vm) = 0xFFFF"
    by (simp_all add: VM_init_def regs_def set_regs_def)
  from push_pop_round_trip [OF a b, of 0 0] a b show ?thesis
    unfolding c by blast
qed

section \<open>Loading and fetching are inverse\<close>

text \<open>
  Claim C8.  On a machine whose memory has its 65536 bytes, for every instruction with a
  recognized operation tag: the encoded length \<open>n\<close> of the tag is 1, 3 or 5; loading the
  instruction writes the tag at the cursor and, when \<open>n\<close> is at least 3, the low byte of
  the first operand after it and the high byte after that, and moves the cursor forward
  by \<open>n\<close>; a fetch with the instruction pointer at the place where the cursor was
  succeeds, returns the same tag and, when \<open>n\<close> is at least 3, the same first operand,
  and moves the instruction pointer forward by \<open>n\<close>.  Cursor and instruction pointer are
  16-bit and move modulo 65536.
\<close>

theorem load_fetch_inverse:
  assumes "mem_ok vm" and "recognized (op instr)"
  shows "\<exists>n vm1 instr' vm2.
           n = getInstructionSize (op instr) \<and> (n = 1 \<or> n = 3 \<or> n = 5)
         \<and> loadProgram [instr] vm = vm1
         \<and> breakLine vm1 = breakLine vm + ucast n
         \<and> mem_at (memory vm1) (breakLine vm) = Some (op instr)
         \<and> (3 \<le> n \<longrightarrow>
              (\<exists>lo hi. mem_at (memory vm1) (breakLine vm + 1) = Some lo
                     \<and> mem_at (memory vm1) (breakLine vm + 2) = Some hi
                     \<and> unat lo = unat (a1 instr) mod 256
                     \<and> unat hi = unat (a1 instr) div 256))
         \<and> fetchNextInstruction (set_regs ((regs vm1)\<lparr>ip := breakLine vm\<rparr>) vm1)
             = Inr (instr', vm2)
         \<and> op instr' = op instr
         \<and> (3 \<le> n \<longrightarrow> a1 instr' = a1 instr)
         \<and> ip (regs vm2) = breakLine vm + ucast n"
proof -
  let ?b = "breakLine vm"
  let ?vm1 = "loadInstruction instr vm"
  let ?f = "set_regs ((regs ?vm1)\<lparr>ip := ?b\<rparr>) ?vm1"
  have len: "length (data (memory vm)) = SIZE"
    using assms(1) by (simp add: mem_ok_def)
  have ok: "mem_ok ?f"
    using assms(1) by (simp add: mem_ok_load1)
  from size_recognized [OF assms(2)] show ?thesis
  proof
    assume n: "getInstructionSize (op instr) = 1"
    have l: "?vm1 = vm\<lparr>memory := raw_put (memory vm) ?b (op instr), breakLine := ?b + 1\<rparr>"
      using n by (simp add: loadInstruction_small)
    have t: "data (memory ?f) ! unat (ip (regs ?f)) = op instr"
      using len by (simp add: l raw_put_def unat_lt_SIZE)
    have f: "fetchNextInstruction ?f =
               Inr (\<lparr>op = op instr, a1 = 0, a2 = 0\<rparr>,
                    set_regs ((regs ?f)\<lparr>ip := ip (regs ?f) + 1\<rparr>) ?f)"
      using fetch_size1 [OF ok] t n by simp
    have m: "mem_at (memory ?vm1) ?b = Some (op instr)"
      using len by (simp add: l raw_put_def mem_at_def unat_lt_SIZE)
    have c: "breakLine ?vm1 = ?b + 1"
      by (simp add: l)
    show ?thesis
      using n f m c by (simp add: word_le_nat_alt)
  next
    assume n: "getInstructionSize (op instr) = 3"
    let ?d = "(data (memory vm))[unat ?b := op instr,
                                 unat (?b + 1) := ucast (a1 instr),
                                 unat (?b + 2) := ucast (drop_bit 8 (a1 instr))]"
    have l: "?vm1 = vm\<lparr>memory := (memory vm)\<lparr>data := ?d\<rparr>, breakLine := ?b + 3\<rparr>"
      using n by (simp add: loadInstruction_3 raw_put_def low_byte high_byte)
    have d0: "?d ! unat ?b = op instr"
      using len by (simp add: unat_lt_SIZE nth_list_update unat_eq_simp)
    have d1: "?d ! unat (?b + 1) = ucast (a1 instr)"
      using len by (simp add: unat_lt_SIZE nth_list_update unat_eq_simp)
    have d2: "?d ! unat (?b + 2) = ucast (drop_bit 8 (a1 instr))"
      using len by (simp add: unat_lt_SIZE nth_list_update unat_eq_simp)
    have t: "data (memory ?f) ! unat (ip (regs ?f)) = op instr"
      using d0 by (simp add: l)
    have "fetchNextInstruction ?f =
               Inr (\<lparr>op = data (memory ?f) ! unat (ip (regs ?f)),
                     a1 = ucast (data (memory ?f) ! unat (ip (regs ?f) + 1))
                          OR push_bit 8 (ucast (data (memory ?f) ! unat (ip (regs ?f) + 2))),
                     a2 = 0\<rparr>,
                    set_regs ((regs ?f)\<lparr>ip := ip (regs ?f) + 3\<rparr>) ?f)"
      using t n by (intro fetch_size3 [OF ok]) simp
    then have f: "fetchNextInstruction ?f =
               Inr (\<lparr>op = op instr, a1 = a1 instr, a2 = 0\<rparr>,
                    set_regs ((regs ?f)\<lparr>ip := ?b + 3\<rparr>) ?f)"
      using d0 d1 d2 by (simp add: l bytes_recombine)
    have m: "mem_at (memory ?vm1) ?b = Some (op instr)"
            "mem_at (memory ?vm1) (?b + 1) = Some (ucast (a1 instr))"
            "mem_at (memory ?vm1) (?b + 2) = Some (ucast (drop_bit 8 (a1 instr)))"
      using len d0 d1 d2 by (simp_all add: l mem_at_def unat_lt_SIZE)
    have c: "breakLine ?vm1 = ?b + 3"
      by (simp add: l)
    show ?thesis
      using n f m c unat_low_byte [of "a1 instr"] unat_high_byte [of "a1 instr"]
      by simp
  qed
qed

theorem load_fetch_inverse_witness:
  "mem_ok VM_init \<and> recognized (op \<lparr>op = MOV, a1 = 0x1234, a2 = 0\<rparr>)
   \<and> (\<exists>vm1 instr' vm2.
          loadProgram [\<lparr>op = MOV, a1 = 0x1234, a2 = 0\<rparr>] VM_init = vm1
        \<and> breakLine vm1 = 3
        \<and> fetchNextInstruction (set_regs ((regs vm1)\<lparr>ip := 0\<rparr>) vm1) = Inr (instr', vm2)
        \<and> op instr' = MOV \<and> a1 instr' = 0x1234 \<and> ip (regs vm2) = 3)"
proof -
  have a: "mem_ok VM_init"
    by (rule mem_ok_VM_init)
  have b: "recognized (op \<lparr>op = MOV, a1 = 0x1234, a2 = 0\<rparr>)"
    by (simp add: recognized_def sizeMap_def)
  have c: "breakLine VM_init = 0"
    by (simp add: VM_init_def)
  from load_fetch_inverse [OF a b] a b show ?thesis
    unfolding c by (simp add: size_of_opcode)
qed

section \<open>Fetching at the top of the memory\<close>

text \<open>
  No fetch on a memory of 65536 bytes fails: every index reaches \<^verbatim>\<open>vector::at\<close> already
  narrowed to 16 bits, so the check of \<^verbatim>\<open>at\<close> always passes.
\<close>

lemma fetch_never_out_of_range:
  assumes "mem_ok vm"
  shows "\<exists>instr vm'. fetchNextInstruction vm = Inr (instr, vm')"
  using assms
  by (simp add: fetchNextInstruction_def mem_ok_def mem_at_ok Let_def)

text \<open>
  Claim C1 asks a fetch whose operand bytes would lie beyond the last address to fail as
  out of bounds, and never to read operand bytes from address 0.  The code at such a
  machine: \<open>VM_top\<close> has the 3-byte tag \<^verbatim>\<open>MOV\<close> at the last address 65535, where the
  instruction pointer stands, and the bytes \<^verbatim>\<open>0x34\<close>, \<^verbatim>\<open>0x12\<close> at the addresses 0 and 1.
  The fetch succeeds, takes its operand \<^verbatim>\<open>0x1234\<close> from the addresses 0 and 1, and
  leaves the instruction pointer at 2.
\<close>

theorem fetch_wraps_at_top_of_memory:
  "mem_ok VM_top \<and> ip (regs VM_top) = 0xFFFF
   \<and> mem_at (memory VM_top) 0xFFFF = Some MOV
   \<and> mem_at (memory VM_top) 0 = Some 0x34 \<and> mem_at (memory VM_top) 1 = Some 0x12
   \<and> fetchNextInstruction VM_top
       = Inr (\<lparr>op = MOV, a1 = 0x1234, a2 = 0\<rparr>, set_regs ((regs VM_top)\<lparr>ip := 2\<rparr>) VM_top)"
proof -
  have ok: "mem_ok VM_top"
    by (simp add: VM_top_def mem_ok_def VM_init_def)
  have i: "ip (regs VM_top) = 0xFFFF"
    by (simp add: VM_top_def)
  have d: "data (memory VM_top) ! unat (0xFFFF :: u16) = MOV"
          "data (memory VM_top) ! unat (0 :: u16) = 0x34"
          "data (memory VM_top) ! unat (1 :: u16) = 0x12"
    by (simp_all add: VM_top_def VM_init_def lt_SIZE_iff)
  have w: "(65538 :: u16) = 2"
    by simp
  have m: "mem_at (memory VM_top) 0xFFFF = Some MOV"
          "mem_at (memory VM_top) 0 = Some 0x34" "mem_at (memory VM_top) 1 = Some 0x12"
    using ok d by (simp_all add: mem_ok_def mem_at_ok)
  have "fetchNextInstruction VM_top =
          Inr (\<lparr>op = data (memory VM_top) ! unat (ip (regs VM_top)),
                a1 = ucast (data (memory VM_top) ! unat (ip (regs VM_top) + 1))
                     OR push_bit 8 (ucast (data (memory VM_top) ! unat (ip (regs VM_top) + 2))),
                a2 = 0\<rparr>,
               set_regs ((regs VM_top)\<lparr>ip := ip (regs VM_top) + 3\<rparr>) VM_top)"
    using d by (intro fetch_size3 [OF ok]) (simp add: i size_of_opcode)
  then have "fetchNextInstruction VM_top
       = Inr (\<lparr>op = MOV, a1 = 0x1234, a2 = 0\<rparr>, set_regs ((regs VM_top)\<lparr>ip := 2\<rparr>) VM_top)"
    using d w by (simp add: i)
  with ok i m show ?thesis
    by simp
qed

section \<open>Loading a program that is longer than the memory\<close>

text \<open>
  Claim C2 asks the loader to fail with ProgramTooLarge, and to leave the memory byte for
  byte unchanged, when the total encoded length of the program exceeds 65536 bytes.  The
  loader has no such check and no failure at all.  A program of 65537 \<^verbatim>\<open>NOP\<close>s, loaded
  into a fresh machine, has a total encoded length above 65536 and changes the memory: the
  last \<^verbatim>\<open>NOP\<close> is written at address 0, where the cursor has wrapped to.
\<close>

theorem load_too_large_counterexample:
  "programLength (replicate (Suc SIZE) nop) > SIZE
   \<and> memory (loadProgram (replicate (Suc SIZE) nop) VM_init) \<noteq> memory VM_init"
proof -
  have g: "programLength (replicate (Suc SIZE) nop) > SIZE"
    unfolding programLength_nops by simp
  have b: "mem_at (memory VM_init) 0 = Some 0"
    by (simp add: mem_at_def VM_init_def lt_SIZE_iff)
  have "NOP \<noteq> (0 :: u8)"
    by (simp add: NOP_def)
  with load_nops_overwrites b
  have "memory (loadProgram (replicate (Suc SIZE) nop) VM_init) \<noteq> memory VM_init"
    by auto
  with g show ?thesis
    by (rule conjI)
qed

text \<open>
  Claim C2 as the code has it.  On a machine whose memory has its 65536 bytes, loading any
  program, also one whose total encoded length exceeds 65536 bytes, does not fail: the
  loader has no size check, and every one of its raw writes lands inside the memory (the
  checked loader returns the machine that \<open>loadProgram\<close> returns).  It writes the encoded
  bytes of the whole program (of each instruction the tag, then the operands low byte
  first), one after the other, at a 16-bit cursor that wraps from 65535 to 0:
  \<^item> the memory keeps its 65536 bytes and the registers are unchanged;
  \<^item> the program has as many encoded bytes as its total encoded length, and the cursor
    ends at the start cursor plus that length, modulo 65536;
  \<^item> the byte number \<open>j\<close> of the encoding is in memory at the start cursor plus \<open>j\<close>
    (modulo 65536) whenever it is among the last 65536 bytes of the encoding, the earlier
    bytes that went to the same address being overwritten;
  \<^item> an address that the cursor never reached keeps its byte;
  \<^item> in particular the tag of the last instruction is in memory at the address that the
    cursor had reached before it.
\<close>

theorem load_wraps_around:
  assumes "mem_ok vm"
  shows "loadProgram_checked program vm = Some (loadProgram program vm)
       \<and> mem_ok (loadProgram program vm)
       \<and> regs (loadProgram program vm) = regs vm
       \<and> length (encodeProgram program) = programLength program
       \<and> unat (breakLine (loadProgram program vm))
           = (unat (breakLine vm) + programLength program) mod SIZE
       \<and> (\<forall>j < programLength program. programLength program \<le> j + SIZE \<longrightarrow>
            mem_at (memory (loadProgram program vm)) (breakLine vm + of_nat j)
              = Some (encodeProgram program ! j))
       \<and> (\<forall>a. (\<forall>j < programLength program. breakLine vm + of_nat j \<noteq> a) \<longrightarrow>
            mem_at (memory (loadProgram program vm)) a = mem_at (memory vm) a)
       \<and> (program \<noteq> [] \<longrightarrow>
            mem_at (memory (loadProgram program vm))
              (breakLine vm + of_nat (programLength (butlast program))) = Some (op (last program)))"
proof (intro conjI allI impI)
  have len: "length (data (memory vm)) = SIZE"
    using assms by (simp add: mem_ok_def)
  have ok': "mem_ok (loadProgram program vm)"
    using assms by (rule mem_ok_loadProgram)
  then have len': "length (data (memory (loadProgram program vm))) = SIZE"
    by (simp add: mem_ok_def)
  show "loadProgram_checked program vm = Some (loadProgram program vm)"
    using assms by (rule loadProgram_checked_ok)
  show "mem_ok (loadProgram program vm)"
    by (rule ok')
  show "regs (loadProgram program vm) = regs vm"
    by (rule loadProgram_regs)
  show "length (encodeProgram program) = programLength program"
    by (rule length_encodeProgram)
  show "unat (breakLine (loadProgram program vm))
           = (unat (breakLine vm) + programLength program) mod SIZE"
    by (simp add: loadProgram_cursor unat_cursor)
  show "mem_at (memory (loadProgram program vm)) (breakLine vm + of_nat j)
          = Some (encodeProgram program ! j)"
    if "j < programLength program" and "programLength program \<le> j + SIZE" for j
    using that len write_bytes_recent [of vm j "encodeProgram program"]
    by (simp add: mem_at_ok length_write_bytes loadProgram_as_bytes length_encodeProgram)
  show "mem_at (memory (loadProgram program vm)) a = mem_at (memory vm) a"
    if "\<forall>j < programLength program. breakLine vm + of_nat j \<noteq> a" for a
    using that len write_bytes_elsewhere [of "encodeProgram program" vm a]
    by (simp add: mem_at_ok length_write_bytes loadProgram_as_bytes length_encodeProgram)
  show "mem_at (memory (loadProgram program vm))
              (breakLine vm + of_nat (programLength (butlast program))) = Some (op (last program))"
    if "program \<noteq> []"
  proof -
    from that have "program = butlast program @ [last program]"
      by simp
    then show ?thesis
      using loadProgram_last_tag [OF assms, of "butlast program" "last program"] by simp
  qed
qed

theorem load_wraps_around_witness:
  "mem_ok VM_init
   \<and> programLength (replicate (Suc SIZE) nop) > SIZE
   \<and> loadProgram_checked (replicate (Suc SIZE) nop) VM_init
       = Some (loadProgram (replicate (Suc SIZE) nop) VM_init)
   \<and> unat (breakLine (loadProgram (replicate (Suc SIZE) nop) VM_init)) = 1
   \<and> SIZE < programLength (replicate (Suc SIZE) nop)
   \<and> programLength (replicate (Suc SIZE) nop) \<le> SIZE + SIZE
   \<and> mem_at (memory (loadProgram (replicate (Suc SIZE) nop) VM_init)) 0 = Some NOP
   \<and> 1 < programLength (replicate (Suc SIZE) nop)
   \<and> programLength (replicate (Suc SIZE) nop) \<le> 1 + SIZE
   \<and> mem_at (memory (loadProgram (replicate (Suc SIZE) nop) VM_init)) 1 = Some NOP
   \<and> 2 < programLength [\<lparr>op = MOV, a1 = 0x1234, a2 = 0\<rparr>, \<lparr>op = HLT, a1 = 0, a2 = 0\<rparr>]
   \<and> mem_at (memory (loadProgram [\<lparr>op = MOV, a1 = 0x1234, a2 = 0\<rparr>,
                                    \<lparr>op = HLT, a1 = 0, a2 = 0\<rparr>] VM_init)) 1 = Some 0x34
   \<and> mem_at (memory (loadProgram [\<lparr>op = MOV, a1 = 0x1234, a2 = 0\<rparr>,
                                    \<lparr>op = HLT, a1 = 0, a2 = 0\<rparr>] VM_init)) 2 = Some 0x12
   \<and> mem_at (memory (loadProgram [\<lparr>op = MOV, a1 = 0x1234, a2 = 0\<rparr>,
                                    \<lparr>op = HLT, a1 = 0, a2 = 0\<rparr>] VM_init)) 4 = Some 0
   \<and> [\<lparr>op = MOV, a1 = 0x1234, a2 = 0\<rparr>, \<lparr>op = HLT, a1 = 0, a2 = 0\<rparr>] \<noteq> []
   \<and> mem_at (memory (loadProgram [\<lparr>op = MOV, a1 = 0x1234, a2 = 0\<rparr>,
                                    \<lparr>op = HLT, a1 = 0, a2 = 0\<rparr>] VM_init)) 3 = Some HLT"
proof -
  let ?big = "replicate (Suc SIZE) nop"
  let ?small = "[\<lparr>op = MOV, a1 = 0x1234, a2 = 0\<rparr>, \<lparr>op = HLT, a1 = 0, a2 = 0\<rparr>]"
  have a: "mem_ok VM_init"
    by (rule mem_ok_VM_init)
  have c: "breakLine VM_init = 0"
    by (simp add: VM_init_def)
  have lb: "programLength ?big = Suc SIZE"
    by (rule programLength_nops)
  have eb: "encodeProgram ?big ! SIZE = NOP" "encodeProgram ?big ! 1 = NOP"
  proof -
    have "SIZE < Suc SIZE" "1 < Suc SIZE"
      by (simp_all add: SIZE_def)
    then show "encodeProgram ?big ! SIZE = NOP" "encodeProgram ?big ! 1 = NOP"
      unfolding encodeProgram_nops by (simp_all only: nth_replicate)
  qed
  have ls: "programLength ?small = 4"
    by (simp add: encodedLength_cases size_of_opcode)
  have es: "encodeProgram ?small = [MOV, 0x34, 0x12, HLT]"
    by (simp add: encodeProgram_def encode_def size_of_opcode sz_cmp)
  have free: "\<forall>j < programLength ?small. breakLine VM_init + of_nat j \<noteq> 4"
  proof (intro allI impI)
    fix j assume "j < programLength ?small"
    then have "j < SIZE" "(4::nat) < SIZE" "j \<noteq> 4"
      unfolding ls by (simp_all add: SIZE_def)
    then have "(of_nat j :: u16) \<noteq> of_nat 4"
      by (rule of_nat_u16_neq)
    then show "breakLine VM_init + of_nat j \<noteq> 4"
      by (simp add: c)
  qed
  have z: "mem_at (memory VM_init) 4 = Some 0"
    by (simp add: mem_at_def VM_init_def lt_SIZE_iff)
  have g: "SIZE < programLength ?big" "programLength ?big \<le> SIZE + SIZE"
          "1 < programLength ?big" "programLength ?big \<le> 1 + SIZE"
          "2 < programLength ?small"
    unfolding lb ls by (simp_all add: SIZE_def)
  have h: "1 < programLength ?small" "programLength ?small \<le> 1 + SIZE"
          "programLength ?small \<le> 2 + SIZE"
    unfolding ls by (simp_all add: SIZE_def)
  have m: "(unat (breakLine VM_init) + programLength ?big) mod SIZE = 1"
    unfolding lb c by (simp add: SIZE_def)
  note big = load_wraps_around [OF a, of ?big]
  note small = load_wraps_around [OF a, of ?small]
  note big_bytes = big [THEN conjunct2, THEN conjunct2, THEN conjunct2, THEN conjunct2,
                        THEN conjunct2, THEN conjunct1, rule_format]
  note small_bytes = small [THEN conjunct2, THEN conjunct2, THEN conjunct2, THEN conjunct2,
                        THEN conjunct2, THEN conjunct1, rule_format]
  note small_rest = small [THEN conjunct2, THEN conjunct2, THEN conjunct2, THEN conjunct2,
                        THEN conjunct2, THEN conjunct2, THEN conjunct1, rule_format]
  have b0: "mem_at (memory (loadProgram ?big VM_init)) 0 = Some NOP"
    using big_bytes [OF g(1) g(2)] unfolding eb c of_nat_SIZE by simp
  have b1: "mem_at (memory (loadProgram ?big VM_init)) 1 = Some NOP"
    using big_bytes [OF g(3) g(4)] unfolding eb c by simp
  have bc: "loadProgram_checked ?big VM_init = Some (loadProgram ?big VM_init)"
    using big by (rule conjunct1)
  have bu: "unat (breakLine (loadProgram ?big VM_init)) = 1"
    using big [THEN conjunct2, THEN conjunct2, THEN conjunct2, THEN conjunct2, THEN conjunct1]
    unfolding m .
  have s1: "mem_at (memory (loadProgram ?small VM_init)) 1 = Some 0x34"
    using small_bytes [OF h(1) h(2)] unfolding es c by simp
  have s2: "mem_at (memory (loadProgram ?small VM_init)) 2 = Some 0x12"
    using small_bytes [OF g(5) h(3)] unfolding es c by simp
  have s4: "mem_at (memory (loadProgram ?small VM_init)) 4 = Some 0"
    using small_rest [of 4] free z by simp
  have ne: "?small \<noteq> []"
    by simp
  have s3: "mem_at (memory (loadProgram ?small VM_init)) 3 = Some HLT"
    using small [THEN conjunct2, THEN conjunct2, THEN conjunct2, THEN conjunct2,
                 THEN conjunct2, THEN conjunct2, THEN conjunct2, rule_format, OF ne]
    by (simp add: c encodedLength_cases size_of_opcode)
  from a g bc bu b0 b1 s1 s2 s4 ne s3 show ?thesis
    by (intro conjI)
qed

end
